theory Spec2Isabelle
  imports Complex_Main "HOL-Library.Sublist" "HOL-Library.Multiset"
begin

section \<open>Numbers\<close>

text \<open>
  The engine works on JavaScript numbers. Every input field of the data model is an
  integer (counts, epoch milliseconds, seconds), so inputs and their sums are modelled
  as \<open>int\<close>. A quotient whose divisor the code keeps away from zero (the \<open>deaths === 0\<close>
  test, a group counter that was just incremented, the length of a non-empty array) is an
  exact rational; rounding to the nearest double is not modelled. A quotient whose divisor
  is not guarded is a \<open>jsnum\<close>: the finite quotient, or what IEEE division by zero gives.
\<close>

datatype jsnum = Fin rat | PosInfinity | NegInfinity | NaN

definition js_div :: "rat \<Rightarrow> rat \<Rightarrow> jsnum" where
  "js_div a b =
     (if b \<noteq> 0 then Fin (a / b)
      else if a = 0 then NaN
      else if 0 < a then PosInfinity
      else NegInfinity)"

section \<open>Data model\<close>

record Participant =
  puuid :: string
  championId :: int
  championName :: string
  kills :: int
  deaths :: int
  assists :: int
  win :: bool
  visionScore :: int
  totalDamageDealt :: int
  goldEarned :: int
  totalMinionsKilled :: int
  role :: string
  lane :: string
  items :: "int list"

record MatchDetails =
  matchId :: string
  gameCreation :: int
  gameDuration :: int
  gameMode :: string
  queueId :: int
  participant :: Participant

record EnrichedMastery =
  championId :: int
  championName :: string
  championLevel :: int
  championPoints :: int
  lastPlayTime :: int
  championPointsSinceLastLevel :: int
  championPointsUntilNextLevel :: int
  chestGranted :: bool
  tokensEarned :: int
  summonerId :: string

record ChampionStat =
  championId :: int
  championName :: string
  games :: int
  wins :: int
  losses :: int
  winRate :: rat
  avgKDA :: rat
  avgKills :: rat
  avgDeaths :: rat
  avgAssists :: rat
  totalPlaytime :: rat
  masteryLevel :: "int option"
  masteryPoints :: "int option"

record MonthlyData =
  month :: string
  games :: int
  wins :: int
  losses :: int
  winRate :: rat

record WeeklyData =
  week :: string
  games :: int
  wins :: int
  losses :: int
  winRate :: rat

record Overview =
  totalGames :: int
  totalWins :: int
  totalLosses :: int
  winRate :: rat
  avgKDA :: rat
  avgKills :: rat
  avgDeaths :: rat
  avgAssists :: rat
  totalPlaytime :: rat

record TemporalTrends =
  monthlyWinRate :: "MonthlyData list"
  weeklyPerformance :: "WeeklyData list"
  bestMonth :: string
  worstMonth :: string

record PerformanceMetrics =
  avgVisionScore :: jsnum
  avgDamagePerMinute :: jsnum
  avgGoldPerMinute :: jsnum
  avgCSPerMinute :: jsnum

datatype StreakType = Win | Loss

record CurrentStreak =
  type :: StreakType
  count :: int

record Streaks =
  longestWinStreak :: int
  longestLossStreak :: int
  currentStreak :: CurrentStreak

record HighlightMatches =
  bestKDA :: "MatchDetails option"
  mostKills :: "MatchDetails option"
  longestGame :: "MatchDetails option"
  highestDamage :: "MatchDetails option"

text \<open>
  A JavaScript \<open>Map\<close> (and the plain object used as the role counter) iterates in
  insertion order, and \<open>set\<close> on a key that is present keeps the key's position. It is an
  association list with at most one pair per key.
\<close>

type_synonym ('k, 'v) js_map = "('k \<times> 'v) list"

definition map_has :: "('k, 'v) js_map \<Rightarrow> 'k \<Rightarrow> bool" where
  "map_has m k = (map_of m k \<noteq> None)"

definition map_get :: "('k, 'v) js_map \<Rightarrow> 'k \<Rightarrow> 'v option" where
  "map_get m k = map_of m k"

fun map_set :: "'k \<Rightarrow> 'v \<Rightarrow> ('k, 'v) js_map \<Rightarrow> ('k, 'v) js_map" where
  "map_set k v [] = [(k, v)]"
| "map_set k v (p # ps) = (if fst p = k then (k, v) # ps else p # map_set k v ps)"

definition map_values :: "('k, 'v) js_map \<Rightarrow> 'v list" where
  "map_values m = map snd m"

record PlayerAnalytics =
  overview :: Overview
  championStats :: "ChampionStat list"
  temporalTrends :: TemporalTrends
  performanceMetrics :: PerformanceMetrics
  streaks :: Streaks
  roleDistribution :: "(string, int) js_map"
  highlightMatches :: HighlightMatches

section \<open>Built-ins of the runtime\<close>

text \<open>
  \<open>Array.prototype.sort\<close> is stable, and the comparators of this program are differences
  of finite numbers, hence consistent; the sorted array is then determined by the
  comparator alone. Insertion from the right computes it: an element goes before the first
  element it does not exceed, so it stays before the later elements it ties with.
\<close>

fun js_insert :: "('a \<Rightarrow> 'a \<Rightarrow> 'n::linordered_idom) \<Rightarrow> 'a \<Rightarrow> 'a list \<Rightarrow> 'a list" where
  "js_insert cmp x [] = [x]"
| "js_insert cmp x (y # ys) = (if cmp x y \<le> 0 then x # y # ys else y # js_insert cmp x ys)"

definition js_sort :: "('a \<Rightarrow> 'a \<Rightarrow> 'n::linordered_idom) \<Rightarrow> 'a list \<Rightarrow> 'a list" where
  "js_sort cmp xs = foldr (js_insert cmp) xs []"

text \<open>
  \<open>localeCompare\<close> on the bucket keys, which consist of ASCII digits, \<open>-\<close> and \<open>W\<close>:
  collation orders these characters as their code units do.
\<close>

fun localeCompare :: "string \<Rightarrow> string \<Rightarrow> int" where
  "localeCompare [] [] = 0"
| "localeCompare [] (y # ys) = - 1"
| "localeCompare (x # xs) [] = 1"
| "localeCompare (x # xs) (y # ys) =
     (if (of_char x :: nat) < of_char y then - 1
      else if (of_char y :: nat) < of_char x then 1
      else localeCompare xs ys)"

text \<open>\<open>String(n)\<close> for an integer and \<open>padStart\<close>.\<close>

fun show_nat :: "nat \<Rightarrow> string" where
  "show_nat n =
     (if n < 10 then [''0123456789'' ! n]
      else show_nat (n div 10) @ [''0123456789'' ! (n mod 10)])"

declare show_nat.simps [simp del]

definition show_int :: "int \<Rightarrow> string" where
  "show_int i = (if i < 0 then CHR ''-'' # show_nat (nat (- i)) else show_nat (nat i))"

definition padStart :: "nat \<Rightarrow> char \<Rightarrow> string \<Rightarrow> string" where
  "padStart n c s = replicate (n - length s) c @ s"

text \<open>
  \<open>Date\<close> renders an epoch timestamp in the host's time zone, so the calendar is a
  parameter of the engine: \<open>getFullYear\<close>, \<open>getMonth\<close> (0 to 11) and \<open>getDay\<close>
  (0 is Sunday) read a timestamp in milliseconds, and \<open>newDate y m d\<close> is
  \<open>new Date(y, m, d).getTime()\<close>.
\<close>

record DateEnv =
  getFullYear :: "int \<Rightarrow> int"
  getMonth :: "int \<Rightarrow> int"
  getDay :: "int \<Rightarrow> int"
  newDate :: "int \<Rightarrow> int \<Rightarrow> int \<Rightarrow> int"

text \<open>The calendar of a host whose time zone is UTC (proleptic Gregorian).\<close>

definition civil_from_days :: "int \<Rightarrow> int \<times> int \<times> int" where
  "civil_from_days z0 =
     (let z = z0 + 719468;
          era = z div 146097;
          doe = z - era * 146097;
          yoe = (doe - doe div 1460 + doe div 36524 - doe div 146096) div 365;
          y = yoe + era * 400;
          doy = doe - (365 * yoe + yoe div 4 - yoe div 100);
          mp = (5 * doy + 2) div 153;
          d = doy - (153 * mp + 2) div 5 + 1;
          m = (if mp < 10 then mp + 3 else mp - 9)
      in (if m \<le> 2 then y + 1 else y, m, d))"

definition days_from_civil :: "int \<Rightarrow> int \<Rightarrow> int \<Rightarrow> int" where
  "days_from_civil y0 m d =
     (let y = (if m \<le> 2 then y0 - 1 else y0);
          era = y div 400;
          yoe = y - era * 400;
          doy = (153 * (if 2 < m then m - 3 else m + 9) + 2) div 5 + d - 1;
          doe = yoe * 365 + yoe div 4 - yoe div 100 + doy
      in era * 146097 + doe - 719468)"

definition utcDate :: DateEnv where
  "utcDate =
     \<lparr> getFullYear = (\<lambda>t. fst (civil_from_days (t div 86400000))),
       getMonth = (\<lambda>t. fst (snd (civil_from_days (t div 86400000))) - 1),
       getDay = (\<lambda>t. (t div 86400000 + 4) mod 7),
       newDate = (\<lambda>y m d.
         days_from_civil (if 0 \<le> y \<and> y \<le> 99 then 1900 + y else y) (m + 1) d * 86400000) \<rparr>"

section \<open>The analytics service\<close>

definition calculateKDA :: "int \<Rightarrow> int \<Rightarrow> int \<Rightarrow> rat" where
  "calculateKDA k d a =
     (if d = 0 then of_int (k + a)
      else of_int (k + a) / of_int d)"

definition getMonthString :: "DateEnv \<Rightarrow> int \<Rightarrow> string" where
  "getMonthString env timestamp =
     (let year = getFullYear env timestamp;
          month = padStart 2 CHR ''0'' (show_int (getMonth env timestamp + 1))
      in show_int year @ ''-'' @ month)"

definition getWeekString :: "DateEnv \<Rightarrow> int \<Rightarrow> string" where
  "getWeekString env timestamp =
     (let year = getFullYear env timestamp;
          firstDayOfYear = newDate env year 0 1;
          pastDaysOfYear = (of_int timestamp - of_int firstDayOfYear) / (86400000 :: rat);
          weekNumber = \<lceil>(pastDaysOfYear + of_int (getDay env firstDayOfYear) + 1) / 7\<rceil>
      in show_int year @ ''-W'' @ padStart 2 CHR ''0'' (show_int weekNumber))"

subsection \<open>Overview statistics\<close>

definition overviewStats :: "MatchDetails list \<Rightarrow> Overview" where
  "overviewStats matches =
     (let totalGames = int (length matches);
          totalWins = int (length (filter (\<lambda>m. win (participant m)) matches));
          totalLosses = totalGames - totalWins;
          winRate = (if 0 < totalGames then of_int totalWins / of_int totalGames * 100 else 0);
          totalKills = foldl (\<lambda>sum m. sum + Participant.kills (participant m)) 0 matches;
          totalDeaths = foldl (\<lambda>sum m. sum + Participant.deaths (participant m)) 0 matches;
          totalAssists = foldl (\<lambda>sum m. sum + Participant.assists (participant m)) 0 matches;
          avgKills = of_int totalKills / of_int totalGames;
          avgDeaths = of_int totalDeaths / of_int totalGames;
          avgAssists = of_int totalAssists / of_int totalGames;
          avgKDA = calculateKDA totalKills totalDeaths totalAssists;
          totalPlaytime = of_int (foldl (\<lambda>sum m. sum + gameDuration m) 0 matches) / 3600
      in \<lparr> totalGames = totalGames, totalWins = totalWins, totalLosses = totalLosses,
           Overview.winRate = winRate, Overview.avgKDA = avgKDA,
           Overview.avgKills = avgKills, Overview.avgDeaths = avgDeaths,
           Overview.avgAssists = avgAssists, Overview.totalPlaytime = totalPlaytime \<rparr>)"

subsection \<open>Champion-specific statistics\<close>

text \<open>The value type of \<open>championMap\<close>.\<close>

record ChampionAcc =
  championId :: int
  championName :: string
  games :: int
  wins :: int
  kills :: int
  deaths :: int
  assists :: int
  playtime :: int

definition masteryMapOf :: "EnrichedMastery list \<Rightarrow> (int, EnrichedMastery) js_map" where
  "masteryMapOf masteries =
     foldl (\<lambda>masteryMap mastery. map_set (EnrichedMastery.championId mastery) mastery masteryMap)
       [] masteries"

text \<open>
  One turn of the loop over the matches: create the champion's entry when the map does not
  have it, then update the entry in place. The \<open>None\<close> branch stands for the non-null
  assertion on \<open>get\<close>; it is never taken.
\<close>

definition championStep ::
  "(int, ChampionAcc) js_map \<Rightarrow> MatchDetails \<Rightarrow> (int, ChampionAcc) js_map" where
  "championStep championMap match =
     (let p = participant match;
          cid = Participant.championId p;
          m1 = (if \<not> map_has championMap cid
                then map_set cid
                  \<lparr> ChampionAcc.championId = cid,
                    ChampionAcc.championName = Participant.championName p,
                    ChampionAcc.games = 0, ChampionAcc.wins = 0, ChampionAcc.kills = 0,
                    ChampionAcc.deaths = 0, ChampionAcc.assists = 0, playtime = 0 \<rparr>
                  championMap
                else championMap)
      in case map_get m1 cid of
           None \<Rightarrow> m1
         | Some stats \<Rightarrow>
             map_set cid
               (stats\<lparr> ChampionAcc.games := ChampionAcc.games stats + 1,
                       ChampionAcc.wins :=
                         (if win p then ChampionAcc.wins stats + 1 else ChampionAcc.wins stats),
                       ChampionAcc.kills := ChampionAcc.kills stats + Participant.kills p,
                       ChampionAcc.deaths := ChampionAcc.deaths stats + Participant.deaths p,
                       ChampionAcc.assists := ChampionAcc.assists stats + Participant.assists p,
                       playtime := playtime stats + gameDuration match \<rparr>)
               m1)"

definition championMapOf :: "MatchDetails list \<Rightarrow> (int, ChampionAcc) js_map" where
  "championMapOf matches = foldl championStep [] matches"

definition toChampionStat :: "(int, EnrichedMastery) js_map \<Rightarrow> ChampionAcc \<Rightarrow> ChampionStat" where
  "toChampionStat masteryMap stats =
     (let mastery = map_get masteryMap (ChampionAcc.championId stats)
      in \<lparr> ChampionStat.championId = ChampionAcc.championId stats,
           ChampionStat.championName = ChampionAcc.championName stats,
           ChampionStat.games = ChampionAcc.games stats,
           ChampionStat.wins = ChampionAcc.wins stats,
           ChampionStat.losses = ChampionAcc.games stats - ChampionAcc.wins stats,
           ChampionStat.winRate =
             of_int (ChampionAcc.wins stats) / of_int (ChampionAcc.games stats) * 100,
           ChampionStat.avgKDA =
             calculateKDA (ChampionAcc.kills stats) (ChampionAcc.deaths stats)
               (ChampionAcc.assists stats),
           ChampionStat.avgKills =
             of_int (ChampionAcc.kills stats) / of_int (ChampionAcc.games stats),
           ChampionStat.avgDeaths =
             of_int (ChampionAcc.deaths stats) / of_int (ChampionAcc.games stats),
           ChampionStat.avgAssists =
             of_int (ChampionAcc.assists stats) / of_int (ChampionAcc.games stats),
           ChampionStat.totalPlaytime = of_int (playtime stats) / 3600,
           masteryLevel = map_option championLevel mastery,
           masteryPoints = map_option championPoints mastery \<rparr>)"

definition championStatsOf :: "MatchDetails list \<Rightarrow> EnrichedMastery list \<Rightarrow> ChampionStat list" where
  "championStatsOf matches masteries =
     js_sort (\<lambda>a b. ChampionStat.games b - ChampionStat.games a)
       (map (toChampionStat (masteryMapOf masteries)) (map_values (championMapOf matches)))"

subsection \<open>Performance metrics\<close>

definition performanceMetricsOf :: "MatchDetails list \<Rightarrow> PerformanceMetrics" where
  "performanceMetricsOf matches =
     (let totalGames = int (length matches);
          totalVisionScore = foldl (\<lambda>sum m. sum + visionScore (participant m)) 0 matches;
          totalDamage = foldl (\<lambda>sum m. sum + totalDamageDealt (participant m)) 0 matches;
          totalGold = foldl (\<lambda>sum m. sum + goldEarned (participant m)) 0 matches;
          totalCS = foldl (\<lambda>sum m. sum + totalMinionsKilled (participant m)) 0 matches;
          totalGameTimeMinutes = of_int (foldl (\<lambda>sum m. sum + gameDuration m) 0 matches) / 60
      in \<lparr> avgVisionScore = js_div (of_int totalVisionScore) (of_int totalGames),
           avgDamagePerMinute = js_div (of_int totalDamage) totalGameTimeMinutes,
           avgGoldPerMinute = js_div (of_int totalGold) totalGameTimeMinutes,
           avgCSPerMinute = js_div (of_int totalCS) totalGameTimeMinutes \<rparr>)"

subsection \<open>Highlight matches\<close>

text \<open>The eight local variables of the scan.\<close>

record HighlightScan =
  bestKDA :: "MatchDetails option"
  bestKDAValue :: rat
  mostKills :: "MatchDetails option"
  mostKillsValue :: int
  longestGame :: "MatchDetails option"
  longestGameDuration :: int
  highestDamage :: "MatchDetails option"
  highestDamageValue :: int

definition highlightInit :: HighlightScan where
  "highlightInit =
     \<lparr> HighlightScan.bestKDA = None, bestKDAValue = - 1,
       HighlightScan.mostKills = None, mostKillsValue = - 1,
       HighlightScan.longestGame = None, longestGameDuration = - 1,
       HighlightScan.highestDamage = None, highestDamageValue = - 1 \<rparr>"

definition highlightStep :: "HighlightScan \<Rightarrow> MatchDetails \<Rightarrow> HighlightScan" where
  "highlightStep s match =
     (let p = participant match;
          kda = calculateKDA (Participant.kills p) (Participant.deaths p) (Participant.assists p);
          s1 = (if bestKDAValue s < kda
                then s\<lparr> bestKDAValue := kda, HighlightScan.bestKDA := Some match \<rparr> else s);
          s2 = (if mostKillsValue s1 < Participant.kills p
                then s1\<lparr> mostKillsValue := Participant.kills p,
                         HighlightScan.mostKills := Some match \<rparr> else s1);
          s3 = (if longestGameDuration s2 < gameDuration match
                then s2\<lparr> longestGameDuration := gameDuration match,
                         HighlightScan.longestGame := Some match \<rparr> else s2);
          s4 = (if highestDamageValue s3 < totalDamageDealt p
                then s3\<lparr> highestDamageValue := totalDamageDealt p,
                         HighlightScan.highestDamage := Some match \<rparr> else s3)
      in s4)"

definition highlightMatchesOf :: "MatchDetails list \<Rightarrow> HighlightMatches" where
  "highlightMatchesOf matches =
     (let s = foldl highlightStep highlightInit matches
      in \<lparr> HighlightMatches.bestKDA = HighlightScan.bestKDA s,
           HighlightMatches.mostKills = HighlightScan.mostKills s,
           HighlightMatches.longestGame = HighlightScan.longestGame s,
           HighlightMatches.highestDamage = HighlightScan.highestDamage s \<rparr>)"

subsection \<open>Temporal trends\<close>

text \<open>The value type of \<open>monthlyMap\<close> and \<open>weeklyMap\<close>.\<close>

record BucketAcc =
  games :: int
  wins :: int

text \<open>
  The loops that group by month and by week are the same text up to the key function,
  which is the parameter \<open>key\<close> here.
\<close>

definition bucketStep ::
  "(int \<Rightarrow> string) \<Rightarrow> (string, BucketAcc) js_map \<Rightarrow> MatchDetails \<Rightarrow> (string, BucketAcc) js_map" where
  "bucketStep key bucketMap match =
     (let k = key (gameCreation match);
          m1 = (if \<not> map_has bucketMap k
                then map_set k \<lparr> BucketAcc.games = 0, BucketAcc.wins = 0 \<rparr> bucketMap
                else bucketMap)
      in case map_get m1 k of
           None \<Rightarrow> m1
         | Some stats \<Rightarrow>
             map_set k
               (stats\<lparr> BucketAcc.games := BucketAcc.games stats + 1,
                       BucketAcc.wins :=
                         (if win (participant match) then BucketAcc.wins stats + 1
                          else BucketAcc.wins stats) \<rparr>)
               m1)"

definition toMonthlyData :: "string \<times> BucketAcc \<Rightarrow> MonthlyData" where
  "toMonthlyData e =
     (case e of (k, stats) \<Rightarrow>
        \<lparr> month = k, MonthlyData.games = BucketAcc.games stats,
          MonthlyData.wins = BucketAcc.wins stats,
          MonthlyData.losses = BucketAcc.games stats - BucketAcc.wins stats,
          MonthlyData.winRate =
            of_int (BucketAcc.wins stats) / of_int (BucketAcc.games stats) * 100 \<rparr>)"

definition toWeeklyData :: "string \<times> BucketAcc \<Rightarrow> WeeklyData" where
  "toWeeklyData e =
     (case e of (k, stats) \<Rightarrow>
        \<lparr> week = k, WeeklyData.games = BucketAcc.games stats,
          WeeklyData.wins = BucketAcc.wins stats,
          WeeklyData.losses = BucketAcc.games stats - BucketAcc.wins stats,
          WeeklyData.winRate =
            of_int (BucketAcc.wins stats) / of_int (BucketAcc.games stats) * 100 \<rparr>)"

definition monthlyWinRateOf :: "DateEnv \<Rightarrow> MatchDetails list \<Rightarrow> MonthlyData list" where
  "monthlyWinRateOf env matches =
     js_sort (\<lambda>a b. localeCompare (month a) (month b))
       (map toMonthlyData (foldl (bucketStep (getMonthString env)) [] matches))"

definition weeklyPerformanceOf :: "DateEnv \<Rightarrow> MatchDetails list \<Rightarrow> WeeklyData list" where
  "weeklyPerformanceOf env matches =
     js_sort (\<lambda>a b. localeCompare (week a) (week b))
       (map toWeeklyData (foldl (bucketStep (getWeekString env)) [] matches))"

text \<open>Best and worst month, from the sorted monthly data.\<close>

definition bestWorstMonth :: "MonthlyData list \<Rightarrow> string \<times> string" where
  "bestWorstMonth monthly =
     (let significantMonths = filter (\<lambda>m. 5 \<le> MonthlyData.games m) monthly
      in if 0 < length significantMonths
         then (let sortedByWinRate =
                     js_sort (\<lambda>a b. MonthlyData.winRate b - MonthlyData.winRate a)
                       significantMonths
               in (month (sortedByWinRate ! 0),
                   month (sortedByWinRate ! (length sortedByWinRate - 1))))
         else ('''', ''''))"

definition calculateTemporalTrends :: "DateEnv \<Rightarrow> MatchDetails list \<Rightarrow> TemporalTrends" where
  "calculateTemporalTrends env matches =
     (if length matches = 0
      then \<lparr> monthlyWinRate = [], weeklyPerformance = [], bestMonth = '''', worstMonth = '''' \<rparr>
      else (let monthlyWinRate = monthlyWinRateOf env matches;
                bw = bestWorstMonth monthlyWinRate;
                weeklyPerformance = weeklyPerformanceOf env matches
            in \<lparr> monthlyWinRate = monthlyWinRate, weeklyPerformance = weeklyPerformance,
                 bestMonth = fst bw, worstMonth = snd bw \<rparr>))"

subsection \<open>Streaks\<close>

text \<open>The four counters of the scan.\<close>

record StreakScan =
  longestWinStreak :: int
  longestLossStreak :: int
  currentWinStreak :: int
  currentLossStreak :: int

definition streakInit :: StreakScan where
  "streakInit =
     \<lparr> StreakScan.longestWinStreak = 0, StreakScan.longestLossStreak = 0,
       currentWinStreak = 0, currentLossStreak = 0 \<rparr>"

definition streakStep :: "StreakScan \<Rightarrow> MatchDetails \<Rightarrow> StreakScan" where
  "streakStep s match =
     (if win (participant match)
      then (let cw = currentWinStreak s + 1
            in s\<lparr> currentWinStreak := cw, currentLossStreak := 0,
                   StreakScan.longestWinStreak := max (StreakScan.longestWinStreak s) cw \<rparr>)
      else (let cl = currentLossStreak s + 1
            in s\<lparr> currentLossStreak := cl, currentWinStreak := 0,
                   StreakScan.longestLossStreak := max (StreakScan.longestLossStreak s) cl \<rparr>))"

definition calculateStreaks :: "MatchDetails list \<Rightarrow> Streaks" where
  "calculateStreaks matches =
     (if length matches = 0
      then \<lparr> Streaks.longestWinStreak = 0, Streaks.longestLossStreak = 0,
             currentStreak = \<lparr> type = Win, count = 0 \<rparr> \<rparr>
      else (let sortedMatches = js_sort (\<lambda>a b. gameCreation a - gameCreation b) matches;
                s = foldl streakStep streakInit sortedMatches;
                currentStreak =
                  (if 0 < currentWinStreak s then \<lparr> type = Win, count = currentWinStreak s \<rparr>
                   else \<lparr> type = Loss, count = currentLossStreak s \<rparr>)
            in \<lparr> Streaks.longestWinStreak = StreakScan.longestWinStreak s,
                 Streaks.longestLossStreak = StreakScan.longestLossStreak s,
                 currentStreak = currentStreak \<rparr>))"

subsection \<open>Role distribution\<close>

text \<open>
  The counter is a plain object read with \<open>roleMap[role] || 0\<close>: a label that was not counted
  yet reads as 0 (role labels are not names of members an object inherits), and an empty
  label counts as \<open>UNKNOWN\<close>.
\<close>

definition roleStep :: "(string, int) js_map \<Rightarrow> MatchDetails \<Rightarrow> (string, int) js_map" where
  "roleStep roleMap match =
     (let r = (if role (participant match) = '''' then ''UNKNOWN'' else role (participant match))
      in map_set r ((case map_get roleMap r of None \<Rightarrow> 0 | Some c \<Rightarrow> c) + 1) roleMap)"

definition calculateRoleDistribution :: "MatchDetails list \<Rightarrow> (string, int) js_map" where
  "calculateRoleDistribution matches = foldl roleStep [] matches"

subsection \<open>Aggregation\<close>

definition aggregateMatchData ::
  "DateEnv \<Rightarrow> MatchDetails list \<Rightarrow> EnrichedMastery list \<Rightarrow> PlayerAnalytics" where
  "aggregateMatchData env matches masteries =
     (if length matches = 0
      then \<lparr> overview =
               \<lparr> totalGames = 0, totalWins = 0, totalLosses = 0, Overview.winRate = 0,
                 Overview.avgKDA = 0, Overview.avgKills = 0, Overview.avgDeaths = 0,
                 Overview.avgAssists = 0, Overview.totalPlaytime = 0 \<rparr>,
             championStats = [],
             temporalTrends =
               \<lparr> monthlyWinRate = [], weeklyPerformance = [], bestMonth = '''',
                 worstMonth = '''' \<rparr>,
             performanceMetrics =
               \<lparr> avgVisionScore = Fin 0, avgDamagePerMinute = Fin 0, avgGoldPerMinute = Fin 0,
                 avgCSPerMinute = Fin 0 \<rparr>,
             streaks =
               \<lparr> Streaks.longestWinStreak = 0, Streaks.longestLossStreak = 0,
                 currentStreak = \<lparr> type = Win, count = 0 \<rparr> \<rparr>,
             roleDistribution = [],
             highlightMatches =
               \<lparr> HighlightMatches.bestKDA = None, HighlightMatches.mostKills = None,
                 HighlightMatches.longestGame = None, HighlightMatches.highestDamage = None \<rparr> \<rparr>
      else \<lparr> overview = overviewStats matches,
             championStats = championStatsOf matches masteries,
             temporalTrends = calculateTemporalTrends env matches,
             performanceMetrics = performanceMetricsOf matches,
             streaks = calculateStreaks matches,
             roleDistribution = calculateRoleDistribution matches,
             highlightMatches = highlightMatchesOf matches \<rparr>)"

section \<open>Notions used to state the properties\<close>

text \<open>A match record for the examples: time, duration, champion, outcome, K/D/A, damage.\<close>

definition sampleMatch ::
  "int \<Rightarrow> int \<Rightarrow> int \<Rightarrow> bool \<Rightarrow> int \<Rightarrow> int \<Rightarrow> int \<Rightarrow> int \<Rightarrow> MatchDetails" where
  "sampleMatch t dur cid w k d a dmg =
     \<lparr> matchId = ''match'', gameCreation = t, gameDuration = dur, gameMode = ''CLASSIC'',
       queueId = 420,
       participant =
         \<lparr> puuid = ''test-puuid'', Participant.championId = cid,
           Participant.championName = ''Champion'', Participant.kills = k,
           Participant.deaths = d, Participant.assists = a, win = w, visionScore = 45,
           totalDamageDealt = dmg, goldEarned = 12000, totalMinionsKilled = 180,
           role = ''MIDDLE'', lane = ''MIDDLE'', items = [] \<rparr> \<rparr>"

text \<open>The distinct elements of a list in the order of their first occurrence.\<close>

definition firstSeen :: "'a list \<Rightarrow> 'a list" where
  "firstSeen xs = rev (remdups (rev xs))"

text \<open>The position of the first occurrence of an element.\<close>

definition firstIndex :: "'a list \<Rightarrow> 'a \<Rightarrow> nat" where
  "firstIndex xs x = length (takeWhile (\<lambda>y. y \<noteq> x) xs)"

text \<open>The matches played on one champion, and their totals.\<close>

definition matchesOf :: "int \<Rightarrow> MatchDetails list \<Rightarrow> MatchDetails list" where
  "matchesOf c matches = filter (\<lambda>m. Participant.championId (participant m) = c) matches"

definition groupTotals :: "int \<Rightarrow> MatchDetails list \<Rightarrow> ChampionAcc" where
  "groupTotals c g =
     \<lparr> ChampionAcc.championId = c,
       ChampionAcc.championName = Participant.championName (participant (hd g)),
       ChampionAcc.games = int (length g),
       ChampionAcc.wins = int (length (filter (\<lambda>m. win (participant m)) g)),
       ChampionAcc.kills = sum_list (map (\<lambda>m. Participant.kills (participant m)) g),
       ChampionAcc.deaths = sum_list (map (\<lambda>m. Participant.deaths (participant m)) g),
       ChampionAcc.assists = sum_list (map (\<lambda>m. Participant.assists (participant m)) g),
       playtime = sum_list (map gameDuration g) \<rparr>"

text \<open>A mastery record for the examples: champion, level, points.\<close>

definition sampleMastery :: "int \<Rightarrow> int \<Rightarrow> int \<Rightarrow> EnrichedMastery" where
  "sampleMastery cid lvl pts =
     \<lparr> EnrichedMastery.championId = cid, EnrichedMastery.championName = ''Champion'',
       championLevel = lvl, championPoints = pts, lastPlayTime = 0,
       championPointsSinceLastLevel = 0, championPointsUntilNextLevel = 0,
       chestGranted = True, tokensEarned = 0, summonerId = ''test-summoner'' \<rparr>"

text \<open>
  \<open>firstMax f xs r\<close>: \<open>r\<close> is the earliest element of \<open>xs\<close> at which \<open>f\<close> is maximal, and
  is absent exactly when \<open>xs\<close> is empty.
\<close>

definition firstMax :: "('a \<Rightarrow> 'k::linorder) \<Rightarrow> 'a list \<Rightarrow> 'a option \<Rightarrow> bool" where
  "firstMax f xs r =
     (case r of
        None \<Rightarrow> xs = []
      | Some x \<Rightarrow>
          (\<exists>i < length xs. x = xs ! i \<and> (\<forall>j < length xs. f (xs ! j) \<le> f x)
             \<and> (\<forall>j < i. f (xs ! j) < f x)))"

text \<open>One running maximum with strict comparison: the stored element and its score.\<close>

definition maxStep :: "('a \<Rightarrow> 'k::linorder) \<Rightarrow> 'a option \<times> 'k \<Rightarrow> 'a \<Rightarrow> 'a option \<times> 'k" where
  "maxStep f s x = (if snd s < f x then (Some x, f x) else s)"

text \<open>The per-match KDA.\<close>

definition kdaOf :: "MatchDetails \<Rightarrow> rat" where
  "kdaOf m = calculateKDA (Participant.kills (participant m)) (Participant.deaths (participant m))
               (Participant.assists (participant m))"

text \<open>
  \<open>isLongestRun b ws n\<close>: \<open>ws\<close> has \<open>n\<close> consecutive entries equal to \<open>b\<close>, and no longer
  run of them. \<open>trailingRun b ws\<close> is the length of the run of \<open>b\<close> that ends \<open>ws\<close>.
\<close>

definition isLongestRun :: "'a \<Rightarrow> 'a list \<Rightarrow> nat \<Rightarrow> bool" where
  "isLongestRun b ws n =
     (sublist (replicate n b) ws \<and> (\<forall>m. sublist (replicate m b) ws \<longrightarrow> m \<le> n))"

definition trailingRun :: "'a \<Rightarrow> 'a list \<Rightarrow> nat" where
  "trailingRun b ws = length (takeWhile (\<lambda>w. w = b) (rev ws))"

text \<open>
  \<open>lastMin f xs r\<close>: \<open>r\<close> is the latest element of \<open>xs\<close> at which \<open>f\<close> is minimal, and is
  absent exactly when \<open>xs\<close> is empty.
\<close>

definition lastMin :: "('a \<Rightarrow> 'k::linorder) \<Rightarrow> 'a list \<Rightarrow> 'a option \<Rightarrow> bool" where
  "lastMin f xs r =
     (case r of
        None \<Rightarrow> xs = []
      | Some x \<Rightarrow>
          (\<exists>i < length xs. x = xs ! i \<and> (\<forall>j < length xs. f x \<le> f (xs ! j))
             \<and> (\<forall>j. i < j \<and> j < length xs \<longrightarrow> f x < f (xs ! j))))"

text \<open>
  The worst month as the specification words it: the first month after a stable sort of
  the significant months by win rate ascending.
\<close>

definition claimedWorstMonth :: "MonthlyData list \<Rightarrow> string" where
  "claimedWorstMonth monthly =
     (let significantMonths = filter (\<lambda>m. 5 \<le> MonthlyData.games m) monthly
      in if significantMonths = [] then ''''
         else month (hd (js_sort (\<lambda>a b. MonthlyData.winRate a - MonthlyData.winRate b)
                           significantMonths)))"


text \<open>The totals of the matches of one month or week.\<close>

definition bucketTotals :: "MatchDetails list \<Rightarrow> BucketAcc" where
  "bucketTotals g =
     \<lparr> BucketAcc.games = int (length g),
       BucketAcc.wins = int (length (filter (\<lambda>m. win (participant m)) g)) \<rparr>"

section \<open>Lemmas\<close>

subsection \<open>Sums and sorting\<close>

lemma foldl_add_sum_list:
  "foldl (\<lambda>sum m. sum + f m) a ms = (a::int) + sum_list (map f ms)"
  by (induction ms arbitrary: a) simp_all

lemma js_insert_asc: "js_insert (\<lambda>a b. f a - f b) x ys = insort_key f x ys"
  by (induction ys) simp_all

lemma js_sort_asc: "js_sort (\<lambda>a b. f a - f b) xs = sort_key f xs"
  by (induction xs) (simp_all add: js_sort_def js_insert_asc)

lemma js_insert_desc: "js_insert (\<lambda>a b. f b - f a) x ys = insort_key (\<lambda>y. - f y) x ys"
  by (induction ys) simp_all

lemma js_sort_desc: "js_sort (\<lambda>a b. f b - f a) xs = sort_key (\<lambda>y. - f y) xs"
  by (induction xs) (simp_all add: js_sort_def js_insert_desc)

lemma sum_list_insort_key:
  "sum_list (map h (insort_key f x xs)) = (h x :: int) + sum_list (map h xs)"
  by (induction xs) simp_all

lemma sum_list_sort_key: "sum_list (map h (sort_key f xs)) = (sum_list (map h xs) :: int)"
  by (induction xs) (simp_all add: sum_list_insort_key)

lemma sum_list_indicator:
  "distinct L \<Longrightarrow> x \<in> set L \<Longrightarrow> (\<Sum>c\<leftarrow>L. if x = c then 1 else 0) = (1::int)"
proof (induction L)
  case Nil
  then show ?case by simp
next
  case (Cons a L)
  show ?case
  proof (cases "x = a")
    case True
    then have "x \<notin> set L" using Cons.prems by simp
    then have "(\<Sum>c\<leftarrow>L. if x = c then 1 else 0) = (0::int)"
      by (induction L) auto
    then show ?thesis using True by simp
  next
    case False
    then show ?thesis using Cons by simp
  qed
qed

lemma sum_group_sizes:
  "distinct L \<Longrightarrow> f ` set ms \<subseteq> set L \<Longrightarrow>
     (\<Sum>c\<leftarrow>L. int (length (filter (\<lambda>m. f m = c) ms))) = int (length ms)"
proof (induction ms)
  case Nil
  then show ?case by simp
next
  case (Cons m ms)
  have "(\<Sum>c\<leftarrow>L. int (length (filter (\<lambda>m. f m = c) (m # ms)))) =
        (\<Sum>c\<leftarrow>L. (if f m = c then 1 else 0) + int (length (filter (\<lambda>m. f m = c) ms)))"
    by (intro arg_cong [where f = sum_list] map_cong) simp_all
  also have "\<dots> = (\<Sum>c\<leftarrow>L. if f m = c then 1 else 0)
                  + (\<Sum>c\<leftarrow>L. int (length (filter (\<lambda>m. f m = c) ms)))"
    by (simp add: sum_list_addf)
  also have "\<dots> = 1 + int (length ms)"
    using Cons by (simp add: sum_list_indicator)
  finally show ?case by simp
qed

subsection \<open>The map operations\<close>

lemma firstSeen_Nil [simp]: "firstSeen [] = []"
  by (simp add: firstSeen_def)

lemma firstSeen_snoc:
  "firstSeen (xs @ [x]) = (if x \<in> set xs then firstSeen xs else firstSeen xs @ [x])"
  by (simp add: firstSeen_def)

lemma set_firstSeen [simp]: "set (firstSeen xs) = set xs"
  by (simp add: firstSeen_def)

lemma distinct_firstSeen [simp]: "distinct (firstSeen xs)"
  by (simp add: firstSeen_def)

lemma map_of_map_set: "map_of (map_set k v m) = (map_of m)(k \<mapsto> v)"
  by (induction m) (auto simp: fun_eq_iff)

lemma keys_map_set:
  "map fst (map_set k v m) = (if k \<in> set (map fst m) then map fst m else map fst m @ [k])"
  by (induction m) auto

lemma distinct_keys_list:
  "distinct (map fst m) \<Longrightarrow> map snd m = map (\<lambda>k. the (map_of m k)) (map fst m)"
proof (induction m)
  case Nil
  then show ?case by simp
next
  case (Cons p m)
  have "map (\<lambda>k. the (map_of (p # m) k)) (map fst m) = map (\<lambda>k. the (map_of m k)) (map fst m)"
    using Cons.prems by (intro map_cong) (force simp: image_iff)+
  then show ?case using Cons by simp
qed

subsection \<open>The champion map in closed form\<close>

lemma map_of_championStep:
  "map_of (championStep acc m) =
     (map_of acc)(Participant.championId (participant m) \<mapsto>
        (let stats = (case map_of acc (Participant.championId (participant m)) of
                        None \<Rightarrow> groupTotals (Participant.championId (participant m)) [m]
                               \<lparr> ChampionAcc.games := 0, ChampionAcc.wins := 0,
                                 ChampionAcc.kills := 0, ChampionAcc.deaths := 0,
                                 ChampionAcc.assists := 0, playtime := 0 \<rparr>
                      | Some e \<Rightarrow> e)
         in stats\<lparr> ChampionAcc.games := ChampionAcc.games stats + 1,
                   ChampionAcc.wins :=
                     (if win (participant m) then ChampionAcc.wins stats + 1
                      else ChampionAcc.wins stats),
                   ChampionAcc.kills := ChampionAcc.kills stats + Participant.kills (participant m),
                   ChampionAcc.deaths :=
                     ChampionAcc.deaths stats + Participant.deaths (participant m),
                   ChampionAcc.assists :=
                     ChampionAcc.assists stats + Participant.assists (participant m),
                   playtime := playtime stats + gameDuration m \<rparr>))"
  by (cases "map_of acc (Participant.championId (participant m))")
     (simp_all add: championStep_def map_has_def map_get_def map_of_map_set Let_def groupTotals_def)

lemma keys_championStep:
  "map fst (championStep acc m) =
     (if Participant.championId (participant m) \<in> set (map fst acc) then map fst acc
      else map fst acc @ [Participant.championId (participant m)])"
  by (cases "map_of acc (Participant.championId (participant m))")
     (auto simp: championStep_def map_has_def map_get_def map_of_map_set keys_map_set Let_def
        map_of_eq_None_iff split: option.splits)

lemma keys_championMapOf:
  "map fst (championMapOf matches) =
     firstSeen (map (\<lambda>m. Participant.championId (participant m)) matches)"
  by (induction matches rule: rev_induct)
     (simp_all add: championMapOf_def keys_championStep firstSeen_snoc)

lemma groupTotals_snoc:
  "g \<noteq> [] \<Longrightarrow> groupTotals c (g @ [m]) =
     (groupTotals c g)
       \<lparr> ChampionAcc.games := ChampionAcc.games (groupTotals c g) + 1,
         ChampionAcc.wins :=
           (if win (participant m) then ChampionAcc.wins (groupTotals c g) + 1
            else ChampionAcc.wins (groupTotals c g)),
         ChampionAcc.kills := ChampionAcc.kills (groupTotals c g) + Participant.kills (participant m),
         ChampionAcc.deaths :=
           ChampionAcc.deaths (groupTotals c g) + Participant.deaths (participant m),
         ChampionAcc.assists :=
           ChampionAcc.assists (groupTotals c g) + Participant.assists (participant m),
         playtime := playtime (groupTotals c g) + gameDuration m \<rparr>"
  by (simp add: groupTotals_def)

lemma matchesOf_eq_Nil:
  "matchesOf c ms = [] \<longleftrightarrow> c \<notin> (\<lambda>m. Participant.championId (participant m)) ` set ms"
  by (auto simp: matchesOf_def filter_empty_conv)

lemma map_of_championMapOf:
  "map_of (championMapOf matches) c =
     (if c \<in> (\<lambda>m. Participant.championId (participant m)) ` set matches
      then Some (groupTotals c (matchesOf c matches)) else None)"
proof (induction matches rule: rev_induct)
  case Nil
  then show ?case by (simp add: championMapOf_def)
next
  case (snoc m ms)
  have step: "championMapOf (ms @ [m]) = championStep (championMapOf ms) m"
    by (simp add: championMapOf_def)
  show ?case
  proof (cases "c = Participant.championId (participant m)")
    case False
    then show ?thesis
      using snoc by (simp add: step map_of_championStep matchesOf_def)
  next
    case True
    show ?thesis
    proof (cases "c \<in> (\<lambda>m. Participant.championId (participant m)) ` set ms")
      case False
      then have "matchesOf c ms = []" by (simp add: matchesOf_eq_Nil)
      then have "matchesOf c (ms @ [m]) = [m]" using True by (simp add: matchesOf_def)
      then show ?thesis
        using snoc False True by (simp add: step map_of_championStep groupTotals_def)
    next
      case in_ms: True
      then have ne: "matchesOf c ms \<noteq> []" by (simp add: matchesOf_eq_Nil)
      have "matchesOf c (ms @ [m]) = matchesOf c ms @ [m]" using True by (simp add: matchesOf_def)
      then show ?thesis
        using snoc in_ms True ne by (simp add: step map_of_championStep groupTotals_snoc Let_def)
    qed
  qed
qed

lemma values_championMapOf:
  "map_values (championMapOf matches) =
     map (\<lambda>c. groupTotals c (matchesOf c matches))
       (firstSeen (map (\<lambda>m. Participant.championId (participant m)) matches))"
proof -
  have d: "distinct (map fst (championMapOf matches))"
    by (simp add: keys_championMapOf)
  show ?thesis
    unfolding map_values_def distinct_keys_list [OF d] keys_championMapOf
    by (rule map_cong) (simp_all add: map_of_championMapOf)
qed

lemma championStatsOf_Nil: "championStatsOf [] masteries = []"
  by (simp add: championStatsOf_def championMapOf_def map_values_def js_sort_def)

lemma championStats_eq:
  "championStats (aggregateMatchData env matches masteries) = championStatsOf matches masteries"
  by (cases matches) (simp_all add: aggregateMatchData_def championStatsOf_Nil)

lemma championStatsOf_closed:
  "championStatsOf matches masteries =
     sort_key (\<lambda>e. - ChampionStat.games e)
       (map (\<lambda>c. toChampionStat (masteryMapOf masteries) (groupTotals c (matchesOf c matches)))
          (firstSeen (map (\<lambda>m. Participant.championId (participant m)) matches)))"
  by (simp add: championStatsOf_def js_sort_desc values_championMapOf comp_def)

section \<open>Properties of the aggregation\<close>

text \<open>
  C2: for an empty match list and any masteries list the aggregation returns the fully
  degenerate analytics: an all-zero overview, no champion statistics, empty monthly and
  weekly data with empty best and worst month, all four performance metrics zero, both
  longest streaks zero with current streak \<open>{win, 0}\<close>, an empty role distribution and
  all four highlight matches null.
\<close>

theorem aggregate_empty:
  "aggregateMatchData env [] masteries =
     \<lparr> overview =
         \<lparr> totalGames = 0, totalWins = 0, totalLosses = 0, Overview.winRate = 0,
           Overview.avgKDA = 0, Overview.avgKills = 0, Overview.avgDeaths = 0,
           Overview.avgAssists = 0, Overview.totalPlaytime = 0 \<rparr>,
       championStats = [],
       temporalTrends =
         \<lparr> monthlyWinRate = [], weeklyPerformance = [], bestMonth = '''', worstMonth = '''' \<rparr>,
       performanceMetrics =
         \<lparr> avgVisionScore = Fin 0, avgDamagePerMinute = Fin 0, avgGoldPerMinute = Fin 0,
           avgCSPerMinute = Fin 0 \<rparr>,
       streaks =
         \<lparr> Streaks.longestWinStreak = 0, Streaks.longestLossStreak = 0,
           currentStreak = \<lparr> type = Win, count = 0 \<rparr> \<rparr>,
       roleDistribution = [],
       highlightMatches =
         \<lparr> HighlightMatches.bestKDA = None, HighlightMatches.mostKills = None,
           HighlightMatches.longestGame = None, HighlightMatches.highestDamage = None \<rparr> \<rparr>"
  by (simp add: aggregateMatchData_def)

text \<open>
  C7: for every match list, \<open>totalGames\<close> is the number of matches, wins and losses add up
  to \<open>totalGames\<close>, and the \<open>games\<close> of the champion statistics add up to \<open>totalGames\<close>.
\<close>

theorem games_accounting:
  "totalGames (overview (aggregateMatchData env matches masteries)) = int (length matches)
   \<and> totalWins (overview (aggregateMatchData env matches masteries))
       + totalLosses (overview (aggregateMatchData env matches masteries))
     = totalGames (overview (aggregateMatchData env matches masteries))
   \<and> sum_list (map ChampionStat.games (championStats (aggregateMatchData env matches masteries)))
     = totalGames (overview (aggregateMatchData env matches masteries))"
proof -
  have ov: "totalGames (overview (aggregateMatchData env matches masteries)) = int (length matches)"
    "totalWins (overview (aggregateMatchData env matches masteries))
       + totalLosses (overview (aggregateMatchData env matches masteries))
     = totalGames (overview (aggregateMatchData env matches masteries))"
    by (simp_all add: aggregateMatchData_def overviewStats_def Let_def)
  have "sum_list (map ChampionStat.games (championStatsOf matches masteries)) =
        (\<Sum>c\<leftarrow>firstSeen (map (\<lambda>m. Participant.championId (participant m)) matches).
            int (length (matchesOf c matches)))"
    by (simp add: championStatsOf_closed sum_list_sort_key comp_def toChampionStat_def
        groupTotals_def Let_def)
  also have "\<dots> = int (length matches)"
    unfolding matchesOf_def by (rule sum_group_sizes) simp_all
  finally show ?thesis
    using ov by (simp add: championStats_eq)
qed

text \<open>
  C8: for a non-empty match list, damage, gold and creep score per minute are the summed
  stat divided by the total game time in minutes (the summed duration over 60), and the
  average vision score is the summed vision score divided by the number of games; for an
  empty list all four are 0.
\<close>

theorem performance_metrics:
  "(matches \<noteq> [] \<longrightarrow>
      (let pm = performanceMetrics (aggregateMatchData env matches masteries);
           totalGameMinutes = of_int (sum_list (map gameDuration matches)) / 60
       in avgDamagePerMinute pm =
            js_div (of_int (sum_list (map (\<lambda>m. totalDamageDealt (participant m)) matches)))
              totalGameMinutes
        \<and> avgGoldPerMinute pm =
            js_div (of_int (sum_list (map (\<lambda>m. goldEarned (participant m)) matches)))
              totalGameMinutes
        \<and> avgCSPerMinute pm =
            js_div (of_int (sum_list (map (\<lambda>m. totalMinionsKilled (participant m)) matches)))
              totalGameMinutes
        \<and> avgVisionScore pm =
            Fin (of_int (sum_list (map (\<lambda>m. visionScore (participant m)) matches))
                 / of_int (int (length matches)))))
   \<and> performanceMetrics (aggregateMatchData env [] masteries) =
       \<lparr> avgVisionScore = Fin 0, avgDamagePerMinute = Fin 0, avgGoldPerMinute = Fin 0,
         avgCSPerMinute = Fin 0 \<rparr>"
  by (simp add: aggregateMatchData_def performanceMetricsOf_def foldl_add_sum_list js_div_def
      Let_def)

theorem performance_metrics_witness:
  "[sampleMatch 0 1800 1 True 10 2 8 150000] \<noteq> []
   \<and> performanceMetrics
       (aggregateMatchData utcDate [sampleMatch 0 1800 1 True 10 2 8 150000] []) =
       \<lparr> avgVisionScore = Fin 45, avgDamagePerMinute = Fin 5000, avgGoldPerMinute = Fin 400,
         avgCSPerMinute = Fin 6 \<rparr>"
  using performance_metrics [of "[sampleMatch 0 1800 1 True 10 2 8 150000]" utcDate "[]"]
  by (simp add: sampleMatch_def js_div_def Let_def aggregateMatchData_def performanceMetricsOf_def)

text \<open>
  C10: for a non-empty match list in which every game has duration 0, the divisor of the
  per-minute metrics is zero and nothing guards the divisions: damage, gold and creep score
  per minute are each \<open>NaN\<close> or an infinity, not 0. A single match of duration 0 is such
  an input.
\<close>

theorem per_minute_division_unguarded:
  assumes "matches \<noteq> []" and "\<forall>m \<in> set matches. gameDuration m = 0"
  shows "let pm = performanceMetrics (aggregateMatchData env matches masteries)
         in avgDamagePerMinute pm \<in> {NaN, PosInfinity, NegInfinity}
          \<and> avgGoldPerMinute pm \<in> {NaN, PosInfinity, NegInfinity}
          \<and> avgCSPerMinute pm \<in> {NaN, PosInfinity, NegInfinity}
          \<and> avgDamagePerMinute pm \<noteq> Fin 0 \<and> avgGoldPerMinute pm \<noteq> Fin 0
          \<and> avgCSPerMinute pm \<noteq> Fin 0"
proof -
  have "sum_list (map gameDuration matches) = 0"
    using assms(2) by (induction matches) simp_all
  then show ?thesis
    using assms(1)
    by (simp add: aggregateMatchData_def performanceMetricsOf_def foldl_add_sum_list js_div_def
        Let_def)
qed

theorem per_minute_division_unguarded_witness:
  "[sampleMatch 0 0 1 True 0 0 0 0] \<noteq> []
   \<and> gameDuration (sampleMatch 0 0 1 True 0 0 0 0) = 0
   \<and> avgDamagePerMinute
       (performanceMetrics (aggregateMatchData utcDate [sampleMatch 0 0 1 True 0 0 0 0] [])) = NaN
   \<and> avgGoldPerMinute
       (performanceMetrics (aggregateMatchData utcDate [sampleMatch 0 0 1 True 0 0 0 0] []))
       = PosInfinity
   \<and> avgCSPerMinute
       (performanceMetrics (aggregateMatchData utcDate [sampleMatch 0 0 1 True 0 0 0 0] []))
       = PosInfinity"
  using per_minute_division_unguarded [of "[sampleMatch 0 0 1 True 0 0 0 0]" utcDate "[]"]
  by (simp add: sampleMatch_def js_div_def Let_def aggregateMatchData_def performanceMetricsOf_def)

subsection \<open>Champion statistics\<close>

lemma map_of_masteryMapOf:
  "map_of (masteryMapOf masteries) c =
     (if c \<in> EnrichedMastery.championId ` set masteries
      then Some (last (filter (\<lambda>r. EnrichedMastery.championId r = c) masteries)) else None)"
  by (induction masteries rule: rev_induct) (auto simp: masteryMapOf_def map_of_map_set)

lemma last_filter_unique:
  assumes "r \<in> set xs" and "\<forall>r' \<in> set xs. f r' = f r \<longrightarrow> r' = r"
  shows "last (filter (\<lambda>x. f x = f r) xs) = r"
proof -
  have ne: "filter (\<lambda>x. f x = f r) xs \<noteq> []"
    using assms(1) by (auto simp: filter_empty_conv)
  then have "last (filter (\<lambda>x. f x = f r) xs) \<in> set (filter (\<lambda>x. f x = f r) xs)"
    by (rule last_in_set)
  then show ?thesis using assms(2) by auto
qed

lemma championStats_ids:
  "map ChampionStat.championId
     (map (\<lambda>c. toChampionStat mm (groupTotals c (matchesOf c matches))) L) = L"
  by (induction L) (simp_all add: toChampionStat_def groupTotals_def Let_def)

text \<open>
  C9: the aggregation is a total function of its inputs, every champion of the matches
  has an entry, and an entry whose champion id has no mastery record has no mastery level
  and no mastery points, while an entry whose champion id has exactly one mastery record
  carries that record's level and points.
\<close>

theorem mastery_join:
  "set (map ChampionStat.championId (championStats (aggregateMatchData env matches masteries)))
     = (\<lambda>m. Participant.championId (participant m)) ` set matches
   \<and> (\<forall>e \<in> set (championStats (aggregateMatchData env matches masteries)).
        (ChampionStat.championId e \<notin> EnrichedMastery.championId ` set masteries
           \<longrightarrow> masteryLevel e = None \<and> masteryPoints e = None)
      \<and> (\<forall>r \<in> set masteries.
            EnrichedMastery.championId r = ChampionStat.championId e
            \<and> (\<forall>r' \<in> set masteries.
                  EnrichedMastery.championId r' = EnrichedMastery.championId r \<longrightarrow> r' = r)
            \<longrightarrow> masteryLevel e = Some (championLevel r)
              \<and> masteryPoints e = Some (championPoints r)))"
proof (intro conjI ballI impI)
  have "set (map ChampionStat.championId (championStatsOf matches masteries)) =
        set (map ChampionStat.championId
          (map (\<lambda>c. toChampionStat (masteryMapOf masteries) (groupTotals c (matchesOf c matches)))
            (firstSeen (map (\<lambda>m. Participant.championId (participant m)) matches))))"
    unfolding championStatsOf_closed set_map set_sort ..
  then show "set (map ChampionStat.championId
                    (championStats (aggregateMatchData env matches masteries)))
     = (\<lambda>m. Participant.championId (participant m)) ` set matches"
    unfolding championStats_ids championStats_eq by simp
next
  fix e
  assume e: "e \<in> set (championStats (aggregateMatchData env matches masteries))"
  from e obtain c where
    ec: "e = toChampionStat (masteryMapOf masteries) (groupTotals c (matchesOf c matches))"
    by (auto simp: championStats_eq championStatsOf_closed)
  have cid: "ChampionStat.championId e = c"
    by (simp add: ec toChampionStat_def groupTotals_def Let_def)
  have lvl: "masteryLevel e = map_option championLevel (map_of (masteryMapOf masteries) c)"
    and pts: "masteryPoints e = map_option championPoints (map_of (masteryMapOf masteries) c)"
    by (simp_all add: ec toChampionStat_def groupTotals_def Let_def map_get_def)
  {
    assume "ChampionStat.championId e \<notin> EnrichedMastery.championId ` set masteries"
    then show "masteryLevel e = None" "masteryPoints e = None"
      by (simp_all add: lvl pts cid [symmetric] map_of_masteryMapOf)
  }
  {
    fix r
    assume r: "r \<in> set masteries"
      and h: "EnrichedMastery.championId r = ChampionStat.championId e
            \<and> (\<forall>r' \<in> set masteries.
                  EnrichedMastery.championId r' = EnrichedMastery.championId r \<longrightarrow> r' = r)"
    have "map_of (masteryMapOf masteries) (EnrichedMastery.championId r) = Some r"
    proof -
      have "last (filter (\<lambda>x. EnrichedMastery.championId x = EnrichedMastery.championId r)
                    masteries) = r"
        using r h by (intro last_filter_unique) simp_all
      moreover have "EnrichedMastery.championId r \<in> EnrichedMastery.championId ` set masteries"
        using r by simp
      ultimately show ?thesis by (simp add: map_of_masteryMapOf)
    qed
    moreover have "EnrichedMastery.championId r = c" using h cid by simp
    ultimately show "masteryLevel e = Some (championLevel r)"
      "masteryPoints e = Some (championPoints r)"
      by (simp_all add: lvl pts)
  }
qed

theorem mastery_join_witness:
  "map (\<lambda>e. (ChampionStat.championId e, masteryLevel e, masteryPoints e))
     (championStats
        (aggregateMatchData utcDate
           [sampleMatch 0 1800 1 True 10 2 8 150000, sampleMatch 1 1800 2 False 1 2 3 4]
           [sampleMastery 1 7 250000]))
   = [(1, Some 7, Some 250000), (2, None, None)]"
proof -
  have ev: "map (\<lambda>e. (ChampionStat.championId e, masteryLevel e, masteryPoints e))
     (championStats
        (aggregateMatchData utcDate
           [sampleMatch 0 1800 1 True 10 2 8 150000, sampleMatch 1 1800 2 False 1 2 3 4]
           [sampleMastery 1 7 250000]))
   = [(1, Some 7, Some 250000), (2, None, None)]"
    by (simp add: championStats_eq championStatsOf_def masteryMapOf_def championMapOf_def
        championStep_def map_values_def map_has_def map_get_def toChampionStat_def js_sort_def
        sampleMatch_def sampleMastery_def Let_def)
  show ?thesis
    using mastery_join [of utcDate
        "[sampleMatch 0 1800 1 True 10 2 8 150000, sampleMatch 1 1800 2 False 1 2 3 4]"
        "[sampleMastery 1 7 250000]"] ev
    by - (rule ev)
qed

lemma firstIndex_snoc:
  "firstIndex (xs @ [x]) a =
     (if a \<in> set xs then firstIndex xs a else if a = x then length xs else Suc (length xs))"
  unfolding firstIndex_def by (induction xs) auto

lemma firstIndex_less: "a \<in> set xs \<Longrightarrow> firstIndex xs a < length xs"
  by (induction xs) (auto simp: firstIndex_def)

lemma sorted_wrt_firstSeen:
  "sorted_wrt (\<lambda>a b. firstIndex xs a < firstIndex xs b) (firstSeen xs)"
proof (induction xs rule: rev_induct)
  case Nil
  then show ?case by simp
next
  case (snoc x xs)
  have keep: "sorted_wrt (\<lambda>a b. firstIndex (xs @ [x]) a < firstIndex (xs @ [x]) b) (firstSeen xs)"
    by (rule sorted_wrt_mono_rel [OF _ snoc]) (simp add: firstIndex_snoc)
  show ?case
  proof (cases "x \<in> set xs")
    case True
    then show ?thesis using keep by (simp add: firstSeen_snoc)
  next
    case False
    then show ?thesis
      using keep by (simp add: firstSeen_snoc sorted_wrt_append firstIndex_snoc firstIndex_less)
  qed
qed

lemma stable_insort_key:
  "\<forall>y \<in> set ys. R x y \<Longrightarrow> sorted_wrt (\<lambda>a b. f a = f b \<longrightarrow> R a b) ys \<Longrightarrow>
     sorted_wrt (\<lambda>a b. f a = f b \<longrightarrow> R a b) (insort_key f x ys)"
  by (induction ys) (auto simp: set_insort_key)

lemma stable_sort_key:
  "sorted_wrt R xs \<Longrightarrow> sorted_wrt (\<lambda>a b. f a = f b \<longrightarrow> R a b) (sort_key f xs)"
  by (induction xs) (auto intro: stable_insort_key)

text \<open>
  C3: for every match list the champion statistics are the per-champion entries (one for
  each champion id of the matches, with that champion's number of games), rearranged: they
  are in descending order of \<open>games\<close>, and of two entries with equal \<open>games\<close> the one that
  comes first is the one whose champion id occurs first in the matches.
\<close>

theorem championStats_sorted_stable:
  "sorted_wrt (\<lambda>a b. ChampionStat.games b \<le> ChampionStat.games a)
     (championStats (aggregateMatchData env matches masteries))
   \<and> (\<forall>i j. i < j \<and> j < length (championStats (aggregateMatchData env matches masteries))
          \<and> ChampionStat.games (championStats (aggregateMatchData env matches masteries) ! i)
            = ChampionStat.games (championStats (aggregateMatchData env matches masteries) ! j)
        \<longrightarrow> firstIndex (map (\<lambda>m. Participant.championId (participant m)) matches)
              (ChampionStat.championId
                 (championStats (aggregateMatchData env matches masteries) ! i))
          < firstIndex (map (\<lambda>m. Participant.championId (participant m)) matches)
              (ChampionStat.championId
                 (championStats (aggregateMatchData env matches masteries) ! j)))
   \<and> mset (championStats (aggregateMatchData env matches masteries))
       = mset (map (\<lambda>c. toChampionStat (masteryMapOf masteries)
                           (groupTotals c (matchesOf c matches)))
                (firstSeen (map (\<lambda>m. Participant.championId (participant m)) matches)))
   \<and> distinct (map ChampionStat.championId
                 (championStats (aggregateMatchData env matches masteries)))
   \<and> set (map ChampionStat.championId
              (championStats (aggregateMatchData env matches masteries)))
       = (\<lambda>m. Participant.championId (participant m)) ` set matches
   \<and> (\<forall>e \<in> set (championStats (aggregateMatchData env matches masteries)).
        ChampionStat.games e
          = int (length (filter (\<lambda>m. Participant.championId (participant m)
                                      = ChampionStat.championId e) matches)))"
proof -
  let ?ids = "map (\<lambda>m. Participant.championId (participant m)) matches"
  let ?T = "\<lambda>c. toChampionStat (masteryMapOf masteries) (groupTotals c (matchesOf c matches))"
  let ?cs = "championStats (aggregateMatchData env matches masteries)"
  let ?R = "\<lambda>a b. firstIndex ?ids (ChampionStat.championId a)
                 < firstIndex ?ids (ChampionStat.championId b)"
  have cs: "?cs = sort_key (\<lambda>e. - ChampionStat.games e) (map ?T (firstSeen ?ids))"
    by (simp add: championStats_eq championStatsOf_closed)
  have id: "ChampionStat.championId (?T c) = c" for c
    by (simp add: toChampionStat_def groupTotals_def Let_def)
  have "sorted (map (\<lambda>e. - ChampionStat.games e) ?cs)"
    unfolding cs by (rule sorted_sort_key)
  then have desc: "sorted_wrt (\<lambda>a b. ChampionStat.games b \<le> ChampionStat.games a) ?cs"
    by (simp add: sorted_map)
  have "sorted_wrt ?R (map ?T (firstSeen ?ids))"
    using sorted_wrt_firstSeen [of ?ids] by (simp add: sorted_wrt_map id)
  then have "sorted_wrt (\<lambda>a b. - ChampionStat.games a = - ChampionStat.games b \<longrightarrow> ?R a b) ?cs"
    unfolding cs by (rule stable_sort_key)
  then have stab: "\<forall>i j. i < j \<longrightarrow> j < length ?cs \<longrightarrow>
      (- ChampionStat.games (?cs ! i) = - ChampionStat.games (?cs ! j) \<longrightarrow> ?R (?cs ! i) (?cs ! j))"
    by (simp only: sorted_wrt_iff_nth_less)
  have perm: "mset ?cs = mset (map ?T (firstSeen ?ids))"
    unfolding cs by (rule mset_sort)
  have "mset (map ChampionStat.championId ?cs)
      = mset (map ChampionStat.championId (map ?T (firstSeen ?ids)))"
    using perm by (simp only: mset_map)
  then have ids: "mset (map ChampionStat.championId ?cs) = mset (firstSeen ?ids)"
    by (simp only: championStats_ids)
  have dist: "distinct (map ChampionStat.championId ?cs)"
    using mset_eq_imp_distinct_iff [OF ids] by simp
  have "set (map ChampionStat.championId ?cs) = set (firstSeen ?ids)"
    using ids by (rule mset_eq_setD)
  then have keys: "set (map ChampionStat.championId ?cs)
      = (\<lambda>m. Participant.championId (participant m)) ` set matches"
    by simp
  have cnt: "\<forall>e \<in> set ?cs.
        ChampionStat.games e
          = int (length (filter (\<lambda>m. Participant.championId (participant m)
                                      = ChampionStat.championId e) matches))"
  proof
    fix e assume "e \<in> set ?cs"
    then obtain c where ec: "e = ?T c"
      unfolding cs by auto
    have "ChampionStat.championId e = c" by (simp add: ec id)
    moreover have "ChampionStat.games e = int (length (matchesOf c matches))"
      by (simp add: ec toChampionStat_def groupTotals_def Let_def)
    ultimately show "ChampionStat.games e
          = int (length (filter (\<lambda>m. Participant.championId (participant m)
                                      = ChampionStat.championId e) matches))"
      by (simp add: matchesOf_def)
  qed
  have ord: "\<forall>i j. i < j \<and> j < length ?cs
          \<and> ChampionStat.games (?cs ! i) = ChampionStat.games (?cs ! j)
        \<longrightarrow> ?R (?cs ! i) (?cs ! j)"
    using stab by simp
  show ?thesis
    using desc ord perm dist keys cnt by (intro conjI)
qed

theorem championStats_sorted_stable_witness:
  "map (\<lambda>e. (ChampionStat.championId e, ChampionStat.games e))
     (championStats
        (aggregateMatchData utcDate
           [sampleMatch 0 1800 1 True 1 1 1 1, sampleMatch 1 1800 2 True 1 1 1 1,
            sampleMatch 2 1800 3 True 1 1 1 1, sampleMatch 3 1800 3 True 1 1 1 1,
            sampleMatch 4 1800 2 True 1 1 1 1] []))
   = [(2, 2), (3, 2), (1, 1)]
   \<and> map (\<lambda>e. (ChampionStat.championId e, ChampionStat.games e))
     (championStats
        (aggregateMatchData utcDate
           [sampleMatch 0 1800 1 True 1 1 1 1, sampleMatch 1 1800 2 True 1 1 1 1,
            sampleMatch 2 1800 2 True 1 1 1 1] []))
   = [(2, 2), (1, 1)]"
proof -
  have ev1: "map (\<lambda>e. (ChampionStat.championId e, ChampionStat.games e))
     (championStats
        (aggregateMatchData utcDate
           [sampleMatch 0 1800 1 True 1 1 1 1, sampleMatch 1 1800 2 True 1 1 1 1,
            sampleMatch 2 1800 3 True 1 1 1 1, sampleMatch 3 1800 3 True 1 1 1 1,
            sampleMatch 4 1800 2 True 1 1 1 1] []))
   = [(2, 2), (3, 2), (1, 1)]"
    by (simp add: championStats_eq championStatsOf_def masteryMapOf_def championMapOf_def
        championStep_def map_values_def map_has_def map_get_def toChampionStat_def js_sort_def
        sampleMatch_def Let_def)
  have ev2: "map (\<lambda>e. (ChampionStat.championId e, ChampionStat.games e))
     (championStats
        (aggregateMatchData utcDate
           [sampleMatch 0 1800 1 True 1 1 1 1, sampleMatch 1 1800 2 True 1 1 1 1,
            sampleMatch 2 1800 2 True 1 1 1 1] []))
   = [(2, 2), (1, 1)]"
    by (simp add: championStats_eq championStatsOf_def masteryMapOf_def championMapOf_def
        championStep_def map_values_def map_has_def map_get_def toChampionStat_def js_sort_def
        sampleMatch_def Let_def)
  show ?thesis
    using championStats_sorted_stable [of utcDate
        "[sampleMatch 0 1800 1 True 1 1 1 1, sampleMatch 1 1800 2 True 1 1 1 1,
          sampleMatch 2 1800 3 True 1 1 1 1, sampleMatch 3 1800 3 True 1 1 1 1,
          sampleMatch 4 1800 2 True 1 1 1 1]" "[]"] ev1 ev2
    by - (intro conjI, rule ev1, rule ev2)
qed

subsection \<open>Running maxima\<close>

lemma maxStep_apply: "maxStep f (b, v) x = (if v < f x then (Some x, f x) else (b, v))"
  by (simp add: maxStep_def)

lemma firstMax_split:
  "xs = us @ x # vs \<Longrightarrow> \<forall>u \<in> set us. f u < f x \<Longrightarrow> \<forall>v \<in> set vs. f v \<le> f x \<Longrightarrow>
     firstMax f xs (Some x)"
  unfolding firstMax_def
  apply simp
  apply (rule exI [where x = "length us"])
  apply (auto simp: nth_append nth_Cons less_le_not_le split: nat.splits)
  using order_less_imp_le apply fastforce
  done

lemma firstMaxD:
  assumes "firstMax f xs (Some x)"
  obtains us vs where "xs = us @ x # vs" "\<forall>u \<in> set us. f u < f x" "\<forall>v \<in> set vs. f v \<le> f x"
proof -
  from assms obtain i where i: "i < length xs" "x = xs ! i"
    and le: "\<forall>j < length xs. f (xs ! j) \<le> f x" and lt: "\<forall>j < i. f (xs ! j) < f x"
    by (auto simp: firstMax_def)
  have xs: "xs = take i xs @ x # drop (Suc i) xs"
    using i by (simp add: id_take_nth_drop)
  have "\<forall>u \<in> set (take i xs). f u < f x"
    using lt i by (auto simp: in_set_conv_nth)
  moreover have "\<forall>v \<in> set (drop (Suc i) xs). f v \<le> f x"
    using le by (auto simp: in_set_conv_nth)
  ultimately show ?thesis using xs that by blast
qed

lemma maxScan:
  assumes "\<forall>x \<in> set xs. v0 < f x"
  shows "firstMax f xs (fst (foldl (maxStep f) (None, v0) xs))
       \<and> (xs = [] \<longrightarrow> foldl (maxStep f) (None, v0) xs = (None, v0))
       \<and> (xs \<noteq> [] \<longrightarrow> (\<exists>x. foldl (maxStep f) (None, v0) xs = (Some x, f x)))"
  using assms
proof (induction xs rule: rev_induct)
  case Nil
  then show ?case by (simp add: firstMax_def)
next
  case (snoc y ys)
  then have IH: "firstMax f ys (fst (foldl (maxStep f) (None, v0) ys))"
    "ys = [] \<longrightarrow> foldl (maxStep f) (None, v0) ys = (None, v0)"
    "ys \<noteq> [] \<longrightarrow> (\<exists>x. foldl (maxStep f) (None, v0) ys = (Some x, f x))"
    and y: "v0 < f y"
    by simp_all
  show ?case
  proof (cases "ys = []")
    case True
    have "firstMax f [y] (Some y)"
      by (rule firstMax_split [where us = "[]" and vs = "[]"]) simp_all
    then show ?thesis using True y by (simp add: maxStep_apply)
  next
    case False
    then obtain x where st: "foldl (maxStep f) (None, v0) ys = (Some x, f x)"
      using IH(3) by blast
    then have fm: "firstMax f ys (Some x)" using IH(1) by simp
    have step: "foldl (maxStep f) (None, v0) (ys @ [y]) = maxStep f (Some x, f x) y"
      using st by simp
    from fm obtain us vs where ys: "ys = us @ x # vs"
      and lt: "\<forall>u \<in> set us. f u < f x" and le: "\<forall>v \<in> set vs. f v \<le> f x"
      by (rule firstMaxD)
    show ?thesis
    proof (cases "f x < f y")
      case True
      have "firstMax f (ys @ [y]) (Some y)"
      proof (rule firstMax_split [where us = ys and vs = "[]"])
        show "\<forall>u \<in> set ys. f u < f y"
          using ys lt le True by (auto intro: less_trans le_less_trans)
      qed simp_all
      then show ?thesis using True by (simp add: st maxStep_apply)
    next
      case nlt: False
      have "firstMax f (ys @ [y]) (Some x)"
      proof (rule firstMax_split [where us = us and vs = "vs @ [y]"])
        show "ys @ [y] = us @ x # vs @ [y]" using ys by simp
        show "\<forall>v \<in> set (vs @ [y]). f v \<le> f x" using le nlt by auto
      qed (rule lt)
      then show ?thesis using nlt by (simp add: st maxStep_apply)
    qed
  qed
qed

lemma highlightStep_bestKDA:
  "(HighlightScan.bestKDA (highlightStep s m), bestKDAValue (highlightStep s m)) =
     maxStep kdaOf (HighlightScan.bestKDA s, bestKDAValue s) m"
  by (simp add: highlightStep_def maxStep_def kdaOf_def Let_def)

lemma highlightStep_mostKills:
  "(HighlightScan.mostKills (highlightStep s m), mostKillsValue (highlightStep s m)) =
     maxStep (\<lambda>m. Participant.kills (participant m)) (HighlightScan.mostKills s, mostKillsValue s) m"
  by (simp add: highlightStep_def maxStep_def Let_def)

lemma highlightStep_longestGame:
  "(HighlightScan.longestGame (highlightStep s m), longestGameDuration (highlightStep s m)) =
     maxStep gameDuration (HighlightScan.longestGame s, longestGameDuration s) m"
  by (simp add: highlightStep_def maxStep_def Let_def)

lemma highlightStep_highestDamage:
  "(HighlightScan.highestDamage (highlightStep s m), highestDamageValue (highlightStep s m)) =
     maxStep (\<lambda>m. totalDamageDealt (participant m))
       (HighlightScan.highestDamage s, highestDamageValue s) m"
  by (simp add: highlightStep_def maxStep_def Let_def)

lemma foldl_projection:
  assumes "\<And>s m. p (step s m) = step' (p s) m"
  shows "p (foldl step s ms) = foldl step' (p s) ms"
  by (induction ms arbitrary: s) (simp_all add: assms)

lemma highlight_scans:
  "HighlightScan.bestKDA (foldl highlightStep highlightInit ms) =
     fst (foldl (maxStep kdaOf) (None, - 1) ms)"
  "HighlightScan.mostKills (foldl highlightStep highlightInit ms) =
     fst (foldl (maxStep (\<lambda>m. Participant.kills (participant m))) (None, - 1) ms)"
  "HighlightScan.longestGame (foldl highlightStep highlightInit ms) =
     fst (foldl (maxStep gameDuration) (None, - 1) ms)"
  "HighlightScan.highestDamage (foldl highlightStep highlightInit ms) =
     fst (foldl (maxStep (\<lambda>m. totalDamageDealt (participant m))) (None, - 1) ms)"
proof -
  show "HighlightScan.bestKDA (foldl highlightStep highlightInit ms) =
     fst (foldl (maxStep kdaOf) (None, - 1) ms)"
    using foldl_projection [where p = "\<lambda>s. (HighlightScan.bestKDA s, bestKDAValue s)"
        and step = highlightStep and step' = "maxStep kdaOf" and s = highlightInit and ms = ms,
        OF highlightStep_bestKDA]
    by (simp add: highlightInit_def prod_eq_iff)
  show "HighlightScan.mostKills (foldl highlightStep highlightInit ms) =
     fst (foldl (maxStep (\<lambda>m. Participant.kills (participant m))) (None, - 1) ms)"
    using foldl_projection [where p = "\<lambda>s. (HighlightScan.mostKills s, mostKillsValue s)"
        and step = highlightStep and s = highlightInit and ms = ms,
        OF highlightStep_mostKills]
    by (simp add: highlightInit_def prod_eq_iff)
  show "HighlightScan.longestGame (foldl highlightStep highlightInit ms) =
     fst (foldl (maxStep gameDuration) (None, - 1) ms)"
    using foldl_projection [where p = "\<lambda>s. (HighlightScan.longestGame s, longestGameDuration s)"
        and step = highlightStep and s = highlightInit and ms = ms,
        OF highlightStep_longestGame]
    by (simp add: highlightInit_def prod_eq_iff)
  show "HighlightScan.highestDamage (foldl highlightStep highlightInit ms) =
     fst (foldl (maxStep (\<lambda>m. totalDamageDealt (participant m))) (None, - 1) ms)"
    using foldl_projection [where p = "\<lambda>s. (HighlightScan.highestDamage s, highestDamageValue s)"
        and step = highlightStep and s = highlightInit and ms = ms,
        OF highlightStep_highestDamage]
    by (simp add: highlightInit_def prod_eq_iff)
qed

lemma calculateKDA_nonneg: "0 \<le> k \<Longrightarrow> 0 \<le> d \<Longrightarrow> 0 \<le> a \<Longrightarrow> 0 \<le> calculateKDA k d a"
  by (simp add: calculateKDA_def)

lemma highlightMatches_eq:
  "highlightMatches (aggregateMatchData env matches masteries) = highlightMatchesOf matches"
  by (cases matches) (simp_all add: aggregateMatchData_def highlightMatchesOf_def highlightInit_def)


lemma overview_avgKDA:
  "Overview.avgKDA (overview (aggregateMatchData env matches masteries)) =
     calculateKDA (sum_list (map (\<lambda>m. Participant.kills (participant m)) matches))
       (sum_list (map (\<lambda>m. Participant.deaths (participant m)) matches))
       (sum_list (map (\<lambda>m. Participant.assists (participant m)) matches))"
  by (cases matches)
     (simp_all add: aggregateMatchData_def overviewStats_def Let_def foldl_add_sum_list
        calculateKDA_def)

lemma bestKDA_firstMax:
  assumes "\<forall>m \<in> set matches. 0 \<le> Participant.kills (participant m)
             \<and> 0 \<le> Participant.deaths (participant m) \<and> 0 \<le> Participant.assists (participant m)"
  shows "firstMax kdaOf matches
           (HighlightMatches.bestKDA (highlightMatches (aggregateMatchData env matches masteries)))"
proof -
  have "\<forall>m \<in> set matches. - 1 < kdaOf m"
  proof
    fix m assume "m \<in> set matches"
    then have "0 \<le> kdaOf m"
      using assms unfolding kdaOf_def by (intro calculateKDA_nonneg) simp_all
    then show "- 1 < kdaOf m" by simp
  qed
  then have "firstMax kdaOf matches (fst (foldl (maxStep kdaOf) (None, - 1) matches))"
    using maxScan [of matches "- 1" kdaOf] by simp
  then show ?thesis
    by (simp add: highlightMatches_eq highlightMatchesOf_def highlight_scans Let_def)
qed

lemma intScan_firstMax:
  assumes "\<forall>m \<in> set matches. (0::int) \<le> f m"
  shows "firstMax f matches (fst (foldl (maxStep f) (None, - 1) matches))"
proof -
  have "\<forall>m \<in> set matches. - 1 < f m"
    using assms by fastforce
  then show ?thesis
    using maxScan [of matches "- 1" f] by simp
qed

text \<open>
  C1: \<open>calculateKDA\<close> returns kills plus assists when deaths is 0 and that sum divided by
  deaths otherwise (for all integers, in particular the non-negative ones); the overview's
  \<open>avgKDA\<close> is this function on the summed totals, each champion's \<open>avgKDA\<close> is this function
  on the totals of that champion's matches, and the highlight scan keeps the earliest match
  that maximises this function of the match's own kills, deaths and assists; the function
  gives 0 at (0, 0, 0), 8 at (5, 0, 3) and 5 at (4, 2, 6).
\<close>

theorem kda_formula:
  "(\<forall>k d a. calculateKDA k d a = (if d = 0 then of_int (k + a) else of_int (k + a) / of_int d))
   \<and> Overview.avgKDA (overview (aggregateMatchData env matches masteries)) =
       calculateKDA (sum_list (map (\<lambda>m. Participant.kills (participant m)) matches))
         (sum_list (map (\<lambda>m. Participant.deaths (participant m)) matches))
         (sum_list (map (\<lambda>m. Participant.assists (participant m)) matches))
   \<and> (\<forall>e \<in> set (championStats (aggregateMatchData env matches masteries)).
        ChampionStat.avgKDA e =
          calculateKDA
            (sum_list (map (\<lambda>m. Participant.kills (participant m))
               (matchesOf (ChampionStat.championId e) matches)))
            (sum_list (map (\<lambda>m. Participant.deaths (participant m))
               (matchesOf (ChampionStat.championId e) matches)))
            (sum_list (map (\<lambda>m. Participant.assists (participant m))
               (matchesOf (ChampionStat.championId e) matches))))
   \<and> ((\<forall>m \<in> set matches. 0 \<le> Participant.kills (participant m)
          \<and> 0 \<le> Participant.deaths (participant m) \<and> 0 \<le> Participant.assists (participant m))
        \<longrightarrow> firstMax
              (\<lambda>m. calculateKDA (Participant.kills (participant m))
                     (Participant.deaths (participant m)) (Participant.assists (participant m)))
              matches
              (HighlightMatches.bestKDA
                 (highlightMatches (aggregateMatchData env matches masteries))))
   \<and> calculateKDA 0 0 0 = 0 \<and> calculateKDA 5 0 3 = 8 \<and> calculateKDA 4 2 6 = 5"
proof (intro conjI allI ballI impI)
  fix e
  assume e: "e \<in> set (championStats (aggregateMatchData env matches masteries))"
  from e obtain c where
    ec: "e = toChampionStat (masteryMapOf masteries) (groupTotals c (matchesOf c matches))"
    by (auto simp: championStats_eq championStatsOf_closed)
  have cid: "ChampionStat.championId e = c"
    by (simp add: ec toChampionStat_def groupTotals_def Let_def)
  show "ChampionStat.avgKDA e =
          calculateKDA
            (sum_list (map (\<lambda>m. Participant.kills (participant m))
               (matchesOf (ChampionStat.championId e) matches)))
            (sum_list (map (\<lambda>m. Participant.deaths (participant m))
               (matchesOf (ChampionStat.championId e) matches)))
            (sum_list (map (\<lambda>m. Participant.assists (participant m))
               (matchesOf (ChampionStat.championId e) matches)))"
    unfolding cid by (simp add: ec toChampionStat_def groupTotals_def Let_def)
next
  assume "\<forall>m \<in> set matches. 0 \<le> Participant.kills (participant m)
          \<and> 0 \<le> Participant.deaths (participant m) \<and> 0 \<le> Participant.assists (participant m)"
  then have "firstMax kdaOf matches
           (HighlightMatches.bestKDA (highlightMatches (aggregateMatchData env matches masteries)))"
    by (rule bestKDA_firstMax)
  moreover have "kdaOf = (\<lambda>m. calculateKDA (Participant.kills (participant m))
                     (Participant.deaths (participant m)) (Participant.assists (participant m)))"
    by (simp add: fun_eq_iff kdaOf_def)
  ultimately show "firstMax
              (\<lambda>m. calculateKDA (Participant.kills (participant m))
                     (Participant.deaths (participant m)) (Participant.assists (participant m)))
              matches
              (HighlightMatches.bestKDA
                 (highlightMatches (aggregateMatchData env matches masteries)))"
    by simp
qed (simp_all add: overview_avgKDA, simp_all add: calculateKDA_def)

theorem kda_formula_witness:
  "Overview.avgKDA (overview (aggregateMatchData utcDate
      [sampleMatch 0 1800 1 True 10 2 8 150000, sampleMatch 1 2400 1 False 5 8 12 120000,
       sampleMatch 2 2100 2 True 12 3 15 180000] [])) = 62 / 13
   \<and> map ChampionStat.avgKDA (championStats (aggregateMatchData utcDate
      [sampleMatch 0 1800 1 True 10 2 8 150000, sampleMatch 1 2400 1 False 5 8 12 120000,
       sampleMatch 2 2100 2 True 12 3 15 180000] [])) = [7 / 2, 9]
   \<and> HighlightMatches.bestKDA (highlightMatches (aggregateMatchData utcDate
      [sampleMatch 0 1800 1 True 10 2 8 150000, sampleMatch 1 2400 1 False 5 8 12 120000,
       sampleMatch 2 2100 2 True 12 3 15 180000] []))
     = Some (sampleMatch 0 1800 1 True 10 2 8 150000)"
proof -
  have ev1: "Overview.avgKDA (overview (aggregateMatchData utcDate
      [sampleMatch 0 1800 1 True 10 2 8 150000, sampleMatch 1 2400 1 False 5 8 12 120000,
       sampleMatch 2 2100 2 True 12 3 15 180000] [])) = 62 / 13"
    by (simp add: aggregateMatchData_def overviewStats_def calculateKDA_def sampleMatch_def Let_def)
  have ev2: "map ChampionStat.avgKDA (championStats (aggregateMatchData utcDate
      [sampleMatch 0 1800 1 True 10 2 8 150000, sampleMatch 1 2400 1 False 5 8 12 120000,
       sampleMatch 2 2100 2 True 12 3 15 180000] [])) = [7 / 2, 9]"
    by (simp add: championStats_eq championStatsOf_def masteryMapOf_def championMapOf_def
        championStep_def map_values_def map_has_def map_get_def toChampionStat_def js_sort_def
        calculateKDA_def sampleMatch_def Let_def)
  have ev3: "HighlightMatches.bestKDA (highlightMatches (aggregateMatchData utcDate
      [sampleMatch 0 1800 1 True 10 2 8 150000, sampleMatch 1 2400 1 False 5 8 12 120000,
       sampleMatch 2 2100 2 True 12 3 15 180000] []))
     = Some (sampleMatch 0 1800 1 True 10 2 8 150000)"
    by (simp add: highlightMatches_eq highlightMatchesOf_def highlightStep_def highlightInit_def
        calculateKDA_def sampleMatch_def Let_def)
  show ?thesis
    using kda_formula [of utcDate
        "[sampleMatch 0 1800 1 True 10 2 8 150000, sampleMatch 1 2400 1 False 5 8 12 120000,
          sampleMatch 2 2100 2 True 12 3 15 180000]" "[]"] ev1 ev2 ev3
    by - (intro conjI, rule ev1, rule ev2, rule ev3)
qed

text \<open>
  C6: on matches whose kills, deaths, assists, duration and damage are not negative, each of
  the four highlights is the earliest match of the input at which its score (per-match KDA,
  kills, duration, damage) is maximal, so of two matches sharing the highest kill count the
  earlier one is reported; the seeds are below every score, so the first match wins all
  four initial comparisons; with no matches all four highlights are absent.
\<close>

theorem highlight_scanner:
  assumes "\<forall>m \<in> set matches. 0 \<le> Participant.kills (participant m)
             \<and> 0 \<le> Participant.deaths (participant m) \<and> 0 \<le> Participant.assists (participant m)
             \<and> 0 \<le> gameDuration m \<and> 0 \<le> totalDamageDealt (participant m)"
  shows "firstMax kdaOf matches
           (HighlightMatches.bestKDA (highlightMatches (aggregateMatchData env matches masteries)))
       \<and> firstMax (\<lambda>m. Participant.kills (participant m)) matches
           (HighlightMatches.mostKills (highlightMatches (aggregateMatchData env matches masteries)))
       \<and> firstMax gameDuration matches
           (HighlightMatches.longestGame
              (highlightMatches (aggregateMatchData env matches masteries)))
       \<and> firstMax (\<lambda>m. totalDamageDealt (participant m)) matches
           (HighlightMatches.highestDamage
              (highlightMatches (aggregateMatchData env matches masteries)))
       \<and> (matches \<noteq> [] \<longrightarrow>
            HighlightScan.bestKDA (highlightStep highlightInit (hd matches)) = Some (hd matches)
          \<and> HighlightScan.mostKills (highlightStep highlightInit (hd matches)) = Some (hd matches)
          \<and> HighlightScan.longestGame (highlightStep highlightInit (hd matches)) = Some (hd matches)
          \<and> HighlightScan.highestDamage (highlightStep highlightInit (hd matches))
              = Some (hd matches))
       \<and> highlightMatches (aggregateMatchData env [] masteries) =
           \<lparr> HighlightMatches.bestKDA = None, HighlightMatches.mostKills = None,
             HighlightMatches.longestGame = None, HighlightMatches.highestDamage = None \<rparr>"
proof (intro conjI impI)
  show "firstMax kdaOf matches
          (HighlightMatches.bestKDA (highlightMatches (aggregateMatchData env matches masteries)))"
    using assms by (intro bestKDA_firstMax) simp
  show "firstMax (\<lambda>m. Participant.kills (participant m)) matches
          (HighlightMatches.mostKills (highlightMatches (aggregateMatchData env matches masteries)))"
    using intScan_firstMax [of matches "\<lambda>m. Participant.kills (participant m)"] assms
    by (simp add: highlightMatches_eq highlightMatchesOf_def highlight_scans Let_def)
  show "firstMax gameDuration matches
          (HighlightMatches.longestGame (highlightMatches (aggregateMatchData env matches masteries)))"
    using intScan_firstMax [of matches gameDuration] assms
    by (simp add: highlightMatches_eq highlightMatchesOf_def highlight_scans Let_def)
  show "firstMax (\<lambda>m. totalDamageDealt (participant m)) matches
          (HighlightMatches.highestDamage
             (highlightMatches (aggregateMatchData env matches masteries)))"
    using intScan_firstMax [of matches "\<lambda>m. totalDamageDealt (participant m)"] assms
    by (simp add: highlightMatches_eq highlightMatchesOf_def highlight_scans Let_def)
  show "highlightMatches (aggregateMatchData env [] masteries) =
           \<lparr> HighlightMatches.bestKDA = None, HighlightMatches.mostKills = None,
             HighlightMatches.longestGame = None, HighlightMatches.highestDamage = None \<rparr>"
    by (simp add: aggregateMatchData_def)
next
  assume ne: "matches \<noteq> []"
  then have m: "hd matches \<in> set matches" by simp
  have k: "- 1 < kdaOf (hd matches)"
  proof -
    have "0 \<le> kdaOf (hd matches)"
      using assms m unfolding kdaOf_def by (intro calculateKDA_nonneg) simp_all
    then show ?thesis by simp
  qed
  have i: "- 1 < Participant.kills (participant (hd matches))" "- 1 < gameDuration (hd matches)"
    "- 1 < totalDamageDealt (participant (hd matches))"
    using assms m by fastforce+
  show "HighlightScan.bestKDA (highlightStep highlightInit (hd matches)) = Some (hd matches)"
    using k by (simp add: highlightStep_def highlightInit_def kdaOf_def Let_def)
  show "HighlightScan.mostKills (highlightStep highlightInit (hd matches)) = Some (hd matches)"
    using i by (simp add: highlightStep_def highlightInit_def Let_def)
  show "HighlightScan.longestGame (highlightStep highlightInit (hd matches)) = Some (hd matches)"
    using i by (simp add: highlightStep_def highlightInit_def Let_def)
  show "HighlightScan.highestDamage (highlightStep highlightInit (hd matches)) = Some (hd matches)"
    using i by (simp add: highlightStep_def highlightInit_def Let_def)
qed

theorem highlight_scanner_witness:
  "HighlightMatches.mostKills (highlightMatches (aggregateMatchData utcDate
      [sampleMatch 0 1800 1 True 3 2 8 100, sampleMatch 1 2400 1 False 7 8 12 300,
       sampleMatch 2 2400 2 True 7 8 12 300] []))
     = Some (sampleMatch 1 2400 1 False 7 8 12 300)
   \<and> HighlightMatches.bestKDA (highlightMatches (aggregateMatchData utcDate
      [sampleMatch 0 1800 1 True 3 2 8 100, sampleMatch 1 2400 1 False 7 8 12 300,
       sampleMatch 2 2400 2 True 7 8 12 300] []))
     = Some (sampleMatch 0 1800 1 True 3 2 8 100)
   \<and> HighlightMatches.longestGame (highlightMatches (aggregateMatchData utcDate
      [sampleMatch 0 1800 1 True 3 2 8 100, sampleMatch 1 2400 1 False 7 8 12 300,
       sampleMatch 2 2400 2 True 7 8 12 300] []))
     = Some (sampleMatch 1 2400 1 False 7 8 12 300)
   \<and> HighlightMatches.highestDamage (highlightMatches (aggregateMatchData utcDate
      [sampleMatch 0 1800 1 True 3 2 8 100, sampleMatch 1 2400 1 False 7 8 12 300,
       sampleMatch 2 2400 2 True 7 8 12 300] []))
     = Some (sampleMatch 1 2400 1 False 7 8 12 300)"
proof -
  have wf: "\<forall>m \<in> set [sampleMatch 0 1800 1 True 3 2 8 100, sampleMatch 1 2400 1 False 7 8 12 300,
       sampleMatch 2 2400 2 True 7 8 12 300]. 0 \<le> Participant.kills (participant m)
             \<and> 0 \<le> Participant.deaths (participant m) \<and> 0 \<le> Participant.assists (participant m)
             \<and> 0 \<le> gameDuration m \<and> 0 \<le> totalDamageDealt (participant m)"
    by (simp add: sampleMatch_def)
  have ev: "highlightMatches (aggregateMatchData utcDate
      [sampleMatch 0 1800 1 True 3 2 8 100, sampleMatch 1 2400 1 False 7 8 12 300,
       sampleMatch 2 2400 2 True 7 8 12 300] []) =
      \<lparr> HighlightMatches.bestKDA = Some (sampleMatch 0 1800 1 True 3 2 8 100),
        HighlightMatches.mostKills = Some (sampleMatch 1 2400 1 False 7 8 12 300),
        HighlightMatches.longestGame = Some (sampleMatch 1 2400 1 False 7 8 12 300),
        HighlightMatches.highestDamage = Some (sampleMatch 1 2400 1 False 7 8 12 300) \<rparr>"
    by (simp add: highlightMatches_eq highlightMatchesOf_def highlightStep_def highlightInit_def
        calculateKDA_def sampleMatch_def Let_def)
  show ?thesis
    using highlight_scanner [OF wf, of utcDate "[]"] by (simp add: ev)
qed

subsection \<open>Streaks\<close>

lemma trailingRun_Nil [simp]: "trailingRun b [] = 0"
  by (simp add: trailingRun_def)

lemma trailingRun_snoc:
  "trailingRun b (ws @ [w]) = (if w = b then Suc (trailingRun b ws) else 0)"
  by (simp add: trailingRun_def)

lemma prefix_replicate:
  "prefix (replicate m b) us \<longleftrightarrow> m \<le> length (takeWhile (\<lambda>w. w = b) us)"
proof (induction us arbitrary: m)
  case Nil
  then show ?case by simp
next
  case (Cons u us)
  then show ?case by (cases m) auto
qed

lemma suffix_replicate: "suffix (replicate m b) ws \<longleftrightarrow> m \<le> trailingRun b ws"
  by (simp add: suffix_to_prefix prefix_replicate trailingRun_def)

lemma isLongestRun_Nil [simp]: "isLongestRun b [] 0"
  by (simp add: isLongestRun_def)

lemma isLongestRun_snoc:
  assumes "isLongestRun b ws n"
  shows "isLongestRun b (ws @ [w]) (max n (trailingRun b (ws @ [w])))"
proof -
  let ?t = "trailingRun b (ws @ [w])"
  have ex: "sublist (replicate (max n ?t) b) (ws @ [w])"
  proof (cases "n \<le> ?t")
    case True
    have "suffix (replicate ?t b) (ws @ [w])" by (simp only: suffix_replicate)
    then show ?thesis using True by (simp add: max_def sublist_snoc del: suffix_snoc)
  next
    case False
    then show ?thesis using assms by (simp add: max_def isLongestRun_def sublist_snoc)
  qed
  have mx: "m \<le> max n ?t" if "sublist (replicate m b) (ws @ [w])" for m
  proof -
    from that have "suffix (replicate m b) (ws @ [w]) \<or> sublist (replicate m b) ws"
      by (simp only: sublist_snoc)
    then show ?thesis
    proof
      assume "suffix (replicate m b) (ws @ [w])"
      then have "m \<le> ?t" by (simp only: suffix_replicate)
      then show ?thesis by simp
    next
      assume "sublist (replicate m b) ws"
      then have "m \<le> n" using assms by (simp add: isLongestRun_def)
      then show ?thesis by simp
    qed
  qed
  show ?thesis
    unfolding isLongestRun_def using ex mx by blast
qed

lemma streak_scan:
  "currentWinStreak (foldl streakStep streakInit xs)
     = int (trailingRun True (map (\<lambda>m. win (participant m)) xs))
   \<and> currentLossStreak (foldl streakStep streakInit xs)
     = int (trailingRun False (map (\<lambda>m. win (participant m)) xs))
   \<and> (\<exists>n. StreakScan.longestWinStreak (foldl streakStep streakInit xs) = int n
          \<and> isLongestRun True (map (\<lambda>m. win (participant m)) xs) n)
   \<and> (\<exists>n. StreakScan.longestLossStreak (foldl streakStep streakInit xs) = int n
          \<and> isLongestRun False (map (\<lambda>m. win (participant m)) xs) n)"
proof (induction xs rule: rev_induct)
  case Nil
  then show ?case by (simp add: streakInit_def)
next
  case (snoc x xs)
  let ?s = "foldl streakStep streakInit xs"
  let ?ws = "map (\<lambda>m. win (participant m)) xs"
  from snoc obtain nw nl where
    cw: "currentWinStreak ?s = int (trailingRun True ?ws)"
    and cl: "currentLossStreak ?s = int (trailingRun False ?ws)"
    and lw: "StreakScan.longestWinStreak ?s = int nw" "isLongestRun True ?ws nw"
    and ll: "StreakScan.longestLossStreak ?s = int nl" "isLongestRun False ?ws nl"
    by blast
  have w: "isLongestRun True (?ws @ [win (participant x)])
             (max nw (trailingRun True (?ws @ [win (participant x)])))"
    using lw(2) by (rule isLongestRun_snoc)
  have l: "isLongestRun False (?ws @ [win (participant x)])
             (max nl (trailingRun False (?ws @ [win (participant x)])))"
    using ll(2) by (rule isLongestRun_snoc)
  show ?case
  proof (cases "win (participant x)")
    case True
    have "StreakScan.longestWinStreak (streakStep ?s x) = int (max nw (Suc (trailingRun True ?ws)))"
      using True cw lw(1) by (simp add: streakStep_def Let_def)
    moreover have "StreakScan.longestLossStreak (streakStep ?s x) = int (max nl 0)"
      using True ll(1) by (simp add: streakStep_def Let_def)
    moreover have "currentWinStreak (streakStep ?s x) = int (Suc (trailingRun True ?ws))"
      "currentLossStreak (streakStep ?s x) = 0"
      using True cw by (simp_all add: streakStep_def Let_def)
    ultimately show ?thesis
      using True w l by (simp add: trailingRun_snoc)
  next
    case False
    have "StreakScan.longestLossStreak (streakStep ?s x) = int (max nl (Suc (trailingRun False ?ws)))"
      using False cl ll(1) by (simp add: streakStep_def Let_def)
    moreover have "StreakScan.longestWinStreak (streakStep ?s x) = int (max nw 0)"
      using False lw(1) by (simp add: streakStep_def Let_def)
    moreover have "currentLossStreak (streakStep ?s x) = int (Suc (trailingRun False ?ws))"
      "currentWinStreak (streakStep ?s x) = 0"
      using False cl by (simp_all add: streakStep_def Let_def)
    ultimately show ?thesis
      using False w l by (simp add: trailingRun_snoc)
  qed
qed


lemma streaks_eq:
  "streaks (aggregateMatchData env matches masteries) = calculateStreaks matches"
  by (cases matches) (simp_all add: aggregateMatchData_def calculateStreaks_def)

lemma calculateStreaks_nonempty:
  assumes "matches \<noteq> []"
  shows "calculateStreaks matches =
     (let s = foldl streakStep streakInit (sort_key gameCreation matches)
      in \<lparr> Streaks.longestWinStreak = StreakScan.longestWinStreak s,
           Streaks.longestLossStreak = StreakScan.longestLossStreak s,
           currentStreak =
             (if 0 < currentWinStreak s then \<lparr> type = Win, count = currentWinStreak s \<rparr>
              else \<lparr> type = Loss, count = currentLossStreak s \<rparr>) \<rparr>)"
  using assms by (simp add: calculateStreaks_def js_sort_asc Let_def)

text \<open>
  C4: the streak detector scans the matches sorted ascending by \<open>gameCreation\<close> (a
  sorted permutation of the input, so that inputs with the same matches at distinct times
  give the same streaks in any order); the longest win and loss streaks are the lengths of
  the longest runs of wins and of losses in that order; for a non-empty input the current
  streak is \<open>{win, n}\<close> when the run of wins ending the sequence has length \<open>n > 0\<close> and
  \<open>{loss, m}\<close> with \<open>m\<close> the length of the final run of losses otherwise; the sequence
  W, W, L, W (supplied out of order) gives 2, 1 and \<open>{win, 1}\<close>; with no matches the current
  streak is \<open>{win, 0}\<close>.
\<close>

theorem streaks_chronological:
  "sorted (map gameCreation (js_sort (\<lambda>a b. gameCreation a - gameCreation b) matches))
   \<and> mset (js_sort (\<lambda>a b. gameCreation a - gameCreation b) matches) = mset matches
   \<and> (\<forall>matches'. mset matches' = mset matches \<and> distinct (map gameCreation matches)
         \<longrightarrow> calculateStreaks matches' = calculateStreaks matches)
   \<and> streaks (aggregateMatchData env matches masteries) = calculateStreaks matches
   \<and> 0 \<le> Streaks.longestWinStreak (calculateStreaks matches)
   \<and> isLongestRun True
       (map (\<lambda>m. win (participant m)) (js_sort (\<lambda>a b. gameCreation a - gameCreation b) matches))
       (nat (Streaks.longestWinStreak (calculateStreaks matches)))
   \<and> 0 \<le> Streaks.longestLossStreak (calculateStreaks matches)
   \<and> isLongestRun False
       (map (\<lambda>m. win (participant m)) (js_sort (\<lambda>a b. gameCreation a - gameCreation b) matches))
       (nat (Streaks.longestLossStreak (calculateStreaks matches)))
   \<and> (matches \<noteq> [] \<longrightarrow>
        currentStreak (calculateStreaks matches) =
          (if 0 < trailingRun True
                    (map (\<lambda>m. win (participant m))
                       (js_sort (\<lambda>a b. gameCreation a - gameCreation b) matches))
           then \<lparr> type = Win,
                  count = int (trailingRun True
                    (map (\<lambda>m. win (participant m))
                       (js_sort (\<lambda>a b. gameCreation a - gameCreation b) matches))) \<rparr>
           else \<lparr> type = Loss,
                  count = int (trailingRun False
                    (map (\<lambda>m. win (participant m))
                       (js_sort (\<lambda>a b. gameCreation a - gameCreation b) matches))) \<rparr>))
   \<and> calculateStreaks
       [sampleMatch 40 1800 1 True 1 1 1 1, sampleMatch 10 1800 1 True 1 1 1 1,
        sampleMatch 30 1800 1 False 1 1 1 1, sampleMatch 20 1800 1 True 1 1 1 1]
     = \<lparr> Streaks.longestWinStreak = 2, Streaks.longestLossStreak = 1,
         currentStreak = \<lparr> type = Win, count = 1 \<rparr> \<rparr>
   \<and> currentStreak (calculateStreaks []) = \<lparr> type = Win, count = 0 \<rparr>"
proof -
  let ?sorted = "js_sort (\<lambda>a b. gameCreation a - gameCreation b) matches"
  let ?ws = "map (\<lambda>m. win (participant m)) ?sorted"
  let ?s = "foldl streakStep streakInit (sort_key gameCreation matches)"
  have srt: "?sorted = sort_key gameCreation matches"
    by (rule js_sort_asc)
  have c1: "sorted (map gameCreation ?sorted)"
    unfolding srt by (rule sorted_sort_key)
  have c2: "mset ?sorted = mset matches"
    unfolding srt by (rule mset_sort)
  have c3: "\<forall>matches'. mset matches' = mset matches \<and> distinct (map gameCreation matches)
         \<longrightarrow> calculateStreaks matches' = calculateStreaks matches"
  proof (intro allI impI)
    fix matches'
    assume h: "mset matches' = mset matches \<and> distinct (map gameCreation matches)"
    then have "inj_on gameCreation (set matches)"
      by (simp add: distinct_map)
    then have inj: "inj_on gameCreation (set matches')"
      using h by (metis mset_eq_setD)
    have "sort_key gameCreation matches' = sort_key gameCreation matches"
      using h inj by (intro sort_key_inj_key_eq) simp_all
    moreover have "matches' = [] \<longleftrightarrow> matches = []"
      using h by (metis mset_zero_iff)
    ultimately show "calculateStreaks matches' = calculateStreaks matches"
      by (simp add: calculateStreaks_def js_sort_asc)
  qed
  note scan = streak_scan [of "sort_key gameCreation matches"]
  from scan obtain nw nl where
    cw: "currentWinStreak ?s = int (trailingRun True ?ws)"
    and cl: "currentLossStreak ?s = int (trailingRun False ?ws)"
    and lw: "StreakScan.longestWinStreak ?s = int nw" "isLongestRun True ?ws nw"
    and ll: "StreakScan.longestLossStreak ?s = int nl" "isLongestRun False ?ws nl"
    unfolding srt by blast
  have c5: "0 \<le> Streaks.longestWinStreak (calculateStreaks matches)
      \<and> isLongestRun True ?ws (nat (Streaks.longestWinStreak (calculateStreaks matches)))"
  proof (cases "matches = []")
    case True
    then show ?thesis by (simp add: calculateStreaks_def js_sort_def)
  next
    case False
    then show ?thesis using lw by (simp add: calculateStreaks_nonempty Let_def)
  qed
  have c6: "0 \<le> Streaks.longestLossStreak (calculateStreaks matches)
      \<and> isLongestRun False ?ws (nat (Streaks.longestLossStreak (calculateStreaks matches)))"
  proof (cases "matches = []")
    case True
    then show ?thesis by (simp add: calculateStreaks_def js_sort_def)
  next
    case False
    then show ?thesis using ll by (simp add: calculateStreaks_nonempty Let_def)
  qed
  have c7: "matches \<noteq> [] \<longrightarrow>
        currentStreak (calculateStreaks matches) =
          (if 0 < trailingRun True ?ws
           then \<lparr> type = Win, count = int (trailingRun True ?ws) \<rparr>
           else \<lparr> type = Loss, count = int (trailingRun False ?ws) \<rparr>)"
    using cw cl by (simp add: calculateStreaks_nonempty Let_def)
  have c8: "calculateStreaks
       [sampleMatch 40 1800 1 True 1 1 1 1, sampleMatch 10 1800 1 True 1 1 1 1,
        sampleMatch 30 1800 1 False 1 1 1 1, sampleMatch 20 1800 1 True 1 1 1 1]
     = \<lparr> Streaks.longestWinStreak = 2, Streaks.longestLossStreak = 1,
         currentStreak = \<lparr> type = Win, count = 1 \<rparr> \<rparr>"
    by (simp add: calculateStreaks_def js_sort_def streakStep_def streakInit_def sampleMatch_def
        Let_def)
  have c9: "currentStreak (calculateStreaks []) = \<lparr> type = Win, count = 0 \<rparr>"
    by (simp add: calculateStreaks_def)
  show ?thesis
    using c1 c2 c3 c5 c6 c7 c8 c9 streaks_eq [of env matches masteries] by blast
qed

theorem streaks_chronological_witness:
  "streaks (aggregateMatchData utcDate
     [sampleMatch 50 1800 1 False 1 1 1 1, sampleMatch 10 1800 1 True 1 1 1 1,
      sampleMatch 40 1800 1 False 1 1 1 1, sampleMatch 20 1800 1 True 1 1 1 1,
      sampleMatch 30 1800 1 True 1 1 1 1] [])
   = \<lparr> Streaks.longestWinStreak = 3, Streaks.longestLossStreak = 2,
       currentStreak = \<lparr> type = Loss, count = 2 \<rparr> \<rparr>
   \<and> calculateStreaks
     [sampleMatch 10 1800 1 True 1 1 1 1, sampleMatch 20 1800 1 True 1 1 1 1,
      sampleMatch 30 1800 1 True 1 1 1 1, sampleMatch 40 1800 1 False 1 1 1 1,
      sampleMatch 50 1800 1 False 1 1 1 1]
   = \<lparr> Streaks.longestWinStreak = 3, Streaks.longestLossStreak = 2,
       currentStreak = \<lparr> type = Loss, count = 2 \<rparr> \<rparr>"
proof -
  have ev1: "calculateStreaks
     [sampleMatch 50 1800 1 False 1 1 1 1, sampleMatch 10 1800 1 True 1 1 1 1,
      sampleMatch 40 1800 1 False 1 1 1 1, sampleMatch 20 1800 1 True 1 1 1 1,
      sampleMatch 30 1800 1 True 1 1 1 1]
   = \<lparr> Streaks.longestWinStreak = 3, Streaks.longestLossStreak = 2,
       currentStreak = \<lparr> type = Loss, count = 2 \<rparr> \<rparr>"
    by (simp add: calculateStreaks_def js_sort_def streakStep_def streakInit_def sampleMatch_def
        Let_def)
  have ev2: "calculateStreaks
     [sampleMatch 10 1800 1 True 1 1 1 1, sampleMatch 20 1800 1 True 1 1 1 1,
      sampleMatch 30 1800 1 True 1 1 1 1, sampleMatch 40 1800 1 False 1 1 1 1,
      sampleMatch 50 1800 1 False 1 1 1 1]
   = \<lparr> Streaks.longestWinStreak = 3, Streaks.longestLossStreak = 2,
       currentStreak = \<lparr> type = Loss, count = 2 \<rparr> \<rparr>"
    by (simp add: calculateStreaks_def js_sort_def streakStep_def streakInit_def sampleMatch_def
        Let_def)
  show ?thesis
    using streaks_chronological [of
        "[sampleMatch 50 1800 1 False 1 1 1 1, sampleMatch 10 1800 1 True 1 1 1 1,
          sampleMatch 40 1800 1 False 1 1 1 1, sampleMatch 20 1800 1 True 1 1 1 1,
          sampleMatch 30 1800 1 True 1 1 1 1]" utcDate "[]"] ev1 ev2
    by simp
qed

subsection \<open>Temporal trends\<close>

lemma lastMin_split:
  assumes xs: "xs = us @ x # vs" and us: "\<forall>u \<in> set us. f x \<le> f u"
    and vs: "\<forall>v \<in> set vs. f x < f v"
  shows "lastMin f xs (Some x)"
proof -
  have 1: "length us < length xs" by (simp add: xs)
  have 2: "x = xs ! length us" by (simp add: xs)
  have 3: "\<forall>j < length xs. f x \<le> f (xs ! j)"
  proof (intro allI impI)
    fix j assume "j < length xs"
    then have "xs ! j \<in> set xs" by simp
    moreover have "set xs = set us \<union> {x} \<union> set vs" by (auto simp: xs)
    ultimately have "xs ! j \<in> set us \<or> xs ! j = x \<or> xs ! j \<in> set vs" by blast
    then show "f x \<le> f (xs ! j)" using us vs by (auto intro: less_imp_le)
  qed
  have 4: "\<forall>j. length us < j \<and> j < length xs \<longrightarrow> f x < f (xs ! j)"
  proof (intro allI impI)
    fix j assume j: "length us < j \<and> j < length xs"
    have "xs ! j = ((us @ [x]) @ vs) ! j" by (simp add: xs)
    also have "\<dots> = vs ! (j - length (us @ [x]))" using j by (subst nth_append) simp
    finally have "xs ! j = vs ! (j - Suc (length us))" by simp
    moreover have "j - Suc (length us) < length vs" using j by (auto simp: xs)
    ultimately have "xs ! j \<in> set vs" by simp
    then show "f x < f (xs ! j)" using vs by blast
  qed
  show ?thesis
    unfolding lastMin_def using 1 2 3 4 by auto
qed

lemma hd_sort_key_split:
  assumes "xs \<noteq> []"
  shows "\<exists>us vs. xs = us @ hd (sort_key g xs) # vs
           \<and> (\<forall>u \<in> set us. g (hd (sort_key g xs)) < g u)
           \<and> (\<forall>v \<in> set vs. g (hd (sort_key g xs)) \<le> g v)"
proof -
  have "sort_key g xs \<noteq> []" using assms by (metis length_0_conv length_sort)
  then obtain y ys' where ys: "sort_key g xs = y # ys'" by (cases "sort_key g xs") simp_all
  have "sorted (map g (y # ys'))" using sorted_sort_key [of g xs] by (simp only: ys)
  then have "\<forall>z \<in> set (y # ys'). g y \<le> g z" by auto
  moreover have "set (y # ys') = set xs" using set_sort [of g xs] by (simp only: ys)
  ultimately have low: "\<forall>x \<in> set xs. g y \<le> g x" by blast
  have "filter (\<lambda>z. g z = g y) (y # ys') = filter (\<lambda>z. g z = g y) xs"
    using sort_key_stable [of g "g y" xs] by (simp only: ys)
  then have "filter (\<lambda>z. g z = g y) xs = y # filter (\<lambda>z. g z = g y) ys'" by simp
  then obtain us vs where xs: "xs = us @ y # vs" and us: "\<forall>u \<in> set us. g u \<noteq> g y"
    by (auto simp: filter_eq_Cons_iff)
  have "\<forall>u \<in> set us. g y < g u"
  proof
    fix u assume u: "u \<in> set us"
    then have "u \<in> set xs" by (subst xs) simp
    then have "g y \<le> g u" using low by blast
    then show "g y < g u" using us u by force
  qed
  moreover have "\<forall>v \<in> set vs. g y \<le> g v"
  proof
    fix v assume "v \<in> set vs"
    then have "v \<in> set xs" by (subst xs) simp
    then show "g y \<le> g v" using low by blast
  qed
  moreover have "hd (sort_key g xs) = y" by (simp only: ys list.sel)
  ultimately show ?thesis using xs by blast
qed

lemma last_sort_key_split:
  assumes "xs \<noteq> []"
  shows "\<exists>us vs. xs = us @ last (sort_key g xs) # vs
           \<and> (\<forall>u \<in> set us. g u \<le> g (last (sort_key g xs)))
           \<and> (\<forall>v \<in> set vs. g v < g (last (sort_key g xs)))"
proof -
  have "sort_key g xs \<noteq> []" using assms by (metis length_0_conv length_sort)
  then obtain y ys' where ys: "sort_key g xs = ys' @ [y]"
    by (cases "sort_key g xs" rule: rev_cases) simp_all
  have "sorted (map g (ys' @ [y]))" using sorted_sort_key [of g xs] by (simp only: ys)
  then have "\<forall>z \<in> set (ys' @ [y]). g z \<le> g y" by (auto simp: sorted_append)
  moreover have "set (ys' @ [y]) = set xs" using set_sort [of g xs] by (simp only: ys)
  ultimately have high: "\<forall>x \<in> set xs. g x \<le> g y" by blast
  have "filter (\<lambda>z. g z = g y) (ys' @ [y]) = filter (\<lambda>z. g z = g y) xs"
    using sort_key_stable [of g "g y" xs] by (simp only: ys)
  then have "filter (\<lambda>z. g z = g y) xs = filter (\<lambda>z. g z = g y) ys' @ [y]" by simp
  then have "filter (\<lambda>z. g z = g y) (rev xs) = y # rev (filter (\<lambda>z. g z = g y) ys')"
    by (simp add: rev_filter [symmetric])
  then obtain us vs where rx: "rev xs = us @ y # vs" and us: "\<forall>u \<in> set us. g u \<noteq> g y"
    by (auto simp: filter_eq_Cons_iff)
  from rx have "rev (rev xs) = rev (us @ y # vs)" by (simp only:)
  then have xs: "xs = rev vs @ y # rev us" by simp
  have "\<forall>v \<in> set (rev us). g v < g y"
  proof
    fix v assume v: "v \<in> set (rev us)"
    then have "v \<in> set xs" by (subst xs) simp
    then have "g v \<le> g y" using high by blast
    then show "g v < g y" using us v by force
  qed
  moreover have "\<forall>u \<in> set (rev vs). g u \<le> g y"
  proof
    fix u assume "u \<in> set (rev vs)"
    then have "u \<in> set xs" by (subst xs) simp
    then show "g u \<le> g y" using high by blast
  qed
  moreover have "last (sort_key g xs) = y" by (simp only: ys last_snoc)
  ultimately show ?thesis using xs by blast
qed

lemma bestWorstMonth_significant:
  assumes "filter (\<lambda>m. 5 \<le> MonthlyData.games m) monthly \<noteq> []"
  shows "(\<exists>b. firstMax MonthlyData.winRate (filter (\<lambda>m. 5 \<le> MonthlyData.games m) monthly) (Some b)
              \<and> fst (bestWorstMonth monthly) = month b)
       \<and> (\<exists>w. lastMin MonthlyData.winRate (filter (\<lambda>m. 5 \<le> MonthlyData.games m) monthly) (Some w)
              \<and> snd (bestWorstMonth monthly) = month w)"
proof -
  let ?S = "filter (\<lambda>m. 5 \<le> MonthlyData.games m) monthly"
  let ?g = "\<lambda>m. - MonthlyData.winRate m"
  let ?ys = "sort_key ?g ?S"
  have ne: "?ys \<noteq> []" using assms by (metis length_0_conv length_sort)
  have bw: "bestWorstMonth monthly = (month (hd ?ys), month (last ?ys))"
    using assms ne by (simp add: bestWorstMonth_def Let_def js_sort_desc hd_conv_nth last_conv_nth)
  from hd_sort_key_split [OF assms, of ?g] obtain us vs where
    "?S = us @ hd ?ys # vs" "\<forall>u \<in> set us. ?g (hd ?ys) < ?g u" "\<forall>v \<in> set vs. ?g (hd ?ys) \<le> ?g v"
    by blast
  then have b: "firstMax MonthlyData.winRate ?S (Some (hd ?ys))"
    by (intro firstMax_split [where us = us and vs = vs]) simp_all
  from last_sort_key_split [OF assms, of ?g] obtain us' vs' where
    "?S = us' @ last ?ys # vs'" "\<forall>u \<in> set us'. ?g u \<le> ?g (last ?ys)"
    "\<forall>v \<in> set vs'. ?g v < ?g (last ?ys)"
    by blast
  then have w: "lastMin MonthlyData.winRate ?S (Some (last ?ys))"
    by (intro lastMin_split [where us = us' and vs = vs']) simp_all
  show ?thesis using b w by (auto simp: bw)
qed

lemma bestWorstMonth_none:
  "filter (\<lambda>m. 5 \<le> MonthlyData.games m) monthly = [] \<Longrightarrow> bestWorstMonth monthly = ('''', '''')"
  by (simp add: bestWorstMonth_def)

lemma temporalTrends_eq:
  "temporalTrends (aggregateMatchData env matches masteries) = calculateTemporalTrends env matches"
  by (cases matches) (simp_all add: aggregateMatchData_def calculateTemporalTrends_def)

lemma temporal_best_worst:
  "bestMonth (calculateTemporalTrends env matches)
     = fst (bestWorstMonth (monthlyWinRate (calculateTemporalTrends env matches)))"
  "worstMonth (calculateTemporalTrends env matches)
     = snd (bestWorstMonth (monthlyWinRate (calculateTemporalTrends env matches)))"
  by (cases matches; simp add: calculateTemporalTrends_def bestWorstMonth_def Let_def)+

lemma map_of_bucketStep:
  "map_of (bucketStep key acc m) =
     (map_of acc)(key (gameCreation m) \<mapsto>
        (let stats = (case map_of acc (key (gameCreation m)) of
                        None \<Rightarrow> \<lparr> BucketAcc.games = 0, BucketAcc.wins = 0 \<rparr>
                      | Some e \<Rightarrow> e)
         in stats\<lparr> BucketAcc.games := BucketAcc.games stats + 1,
                   BucketAcc.wins :=
                     (if win (participant m) then BucketAcc.wins stats + 1
                      else BucketAcc.wins stats) \<rparr>))"
  by (cases "map_of acc (key (gameCreation m))")
     (simp_all add: bucketStep_def map_has_def map_get_def map_of_map_set Let_def)

lemma keys_bucketStep:
  "map fst (bucketStep key acc m) =
     (if key (gameCreation m) \<in> set (map fst acc) then map fst acc
      else map fst acc @ [key (gameCreation m)])"
  by (cases "map_of acc (key (gameCreation m))")
     (auto simp: bucketStep_def map_has_def map_get_def map_of_map_set keys_map_set Let_def
        map_of_eq_None_iff split: option.splits)

lemma keys_buckets:
  "map fst (foldl (bucketStep key) [] matches) =
     firstSeen (map (\<lambda>m. key (gameCreation m)) matches)"
  by (induction matches rule: rev_induct) (simp_all add: keys_bucketStep firstSeen_snoc)

lemma map_of_buckets:
  "map_of (foldl (bucketStep key) [] matches) k =
     (if k \<in> (\<lambda>m. key (gameCreation m)) ` set matches
      then Some (bucketTotals (filter (\<lambda>m. key (gameCreation m) = k) matches)) else None)"
proof (induction matches rule: rev_induct)
  case Nil
  then show ?case by simp
next
  case (snoc m ms)
  show ?case
  proof (cases "k = key (gameCreation m)")
    case False
    then show ?thesis using snoc by (simp add: map_of_bucketStep)
  next
    case True
    show ?thesis
    proof (cases "k \<in> (\<lambda>m. key (gameCreation m)) ` set ms")
      case False
      then have "filter (\<lambda>m. key (gameCreation m) = k) ms = []"
        by (auto simp: filter_empty_conv)
      then show ?thesis
        using snoc False True by (simp add: map_of_bucketStep bucketTotals_def)
    next
      case in_ms: True
      then show ?thesis
        using snoc True by (simp add: map_of_bucketStep bucketTotals_def Let_def)
    qed
  qed
qed

lemma set_js_insert: "set (js_insert cmp x ys) = insert x (set ys)"
  by (induction ys) auto

lemma set_js_sort: "set (js_sort cmp xs) = set xs"
  by (induction xs) (simp_all add: js_sort_def set_js_insert)

lemma monthly_entries:
  assumes "e \<in> set (monthlyWinRateOf env matches)"
  shows "MonthlyData.games e
           = int (length (filter (\<lambda>m. getMonthString env (gameCreation m) = month e) matches))
       \<and> MonthlyData.wins e
           = int (length (filter (\<lambda>m. win (participant m))
                (filter (\<lambda>m. getMonthString env (gameCreation m) = month e) matches)))
       \<and> MonthlyData.winRate e = of_int (MonthlyData.wins e) / of_int (MonthlyData.games e) * 100
       \<and> 0 < MonthlyData.games e"
proof -
  let ?B = "foldl (bucketStep (getMonthString env)) [] matches"
  from assms obtain k v where kv: "(k, v) \<in> set ?B" and e: "e = toMonthlyData (k, v)"
    by (auto simp: monthlyWinRateOf_def set_js_sort)
  have "distinct (map fst ?B)" by (simp add: keys_buckets)
  then have "map_of ?B k = Some v" using kv by simp
  then have v: "v = bucketTotals (filter (\<lambda>m. getMonthString env (gameCreation m) = k) matches)"
    and k: "k \<in> (\<lambda>m. getMonthString env (gameCreation m)) ` set matches"
    by (simp_all add: map_of_buckets split: if_splits)
  have "filter (\<lambda>m. getMonthString env (gameCreation m) = k) matches \<noteq> []"
    using k by (auto simp: filter_empty_conv)
  then show ?thesis
    by (simp add: e v toMonthlyData_def bucketTotals_def)
qed

lemma localeCompare_total: "localeCompare a b \<le> 0 \<or> localeCompare b a \<le> 0"
  by (induction a b rule: localeCompare.induct) auto

lemma localeCompare_Nil: "localeCompare [] c \<le> 0"
  by (cases c) simp_all

lemma localeCompare_trans:
  "localeCompare a b \<le> 0 \<Longrightarrow> localeCompare b c \<le> 0 \<Longrightarrow> localeCompare a c \<le> 0"
proof (induction a arbitrary: b c)
  case Nil
  show ?case by (rule localeCompare_Nil)
next
  case (Cons x xs)
  from Cons.prems(1) obtain y ys where b: "b = y # ys" by (cases b) simp_all
  from Cons.prems(2) b obtain z zs where c: "c = z # zs" by (cases c) simp_all
  show ?case
    using Cons.prems Cons.IH [of ys zs] unfolding b c
    by (auto split: if_splits)
qed

lemma sorted_js_insert:
  assumes total: "\<And>a b. cmp a b \<le> 0 \<or> cmp b a \<le> 0"
    and trans: "\<And>a b c. cmp a b \<le> 0 \<Longrightarrow> cmp b c \<le> 0 \<Longrightarrow> cmp a c \<le> 0"
  shows "sorted_wrt (\<lambda>a b. cmp a b \<le> 0) ys \<Longrightarrow>
           sorted_wrt (\<lambda>a b. cmp a b \<le> 0) (js_insert cmp x ys)"
proof (induction ys)
  case Nil
  then show ?case by simp
next
  case (Cons y ys)
  show ?case
  proof (cases "cmp x y \<le> 0")
    case True
    then have "\<forall>z \<in> set (y # ys). cmp x z \<le> 0"
      using Cons.prems trans by auto
    then show ?thesis using True Cons.prems by simp
  next
    case False
    then have "cmp y x \<le> 0" using total by blast
    then show ?thesis using False Cons by (auto simp: set_js_insert)
  qed
qed

lemma sorted_js_sort:
  assumes "\<And>a b. cmp a b \<le> 0 \<or> cmp b a \<le> 0"
    and "\<And>a b c. cmp a b \<le> 0 \<Longrightarrow> cmp b c \<le> 0 \<Longrightarrow> cmp a c \<le> 0"
  shows "sorted_wrt (\<lambda>a b. cmp a b \<le> 0) (js_sort cmp xs)"
proof (induction xs)
  case Nil
  then show ?case by (simp add: js_sort_def)
next
  case (Cons x xs)
  have "js_sort cmp (x # xs) = js_insert cmp x (js_sort cmp xs)" by (simp add: js_sort_def)
  then show ?case using sorted_js_insert [OF assms Cons] by simp
qed

lemma distinct_js_insert:
  "distinct (map f (js_insert cmp x ys)) \<longleftrightarrow> f x \<notin> f ` set ys \<and> distinct (map f ys)"
  by (induction ys) (auto simp: set_js_insert)

lemma distinct_js_sort: "distinct (map f (js_sort cmp xs)) \<longleftrightarrow> distinct (map f xs)"
proof (induction xs)
  case Nil
  then show ?case by (simp add: js_sort_def)
next
  case (Cons x xs)
  have "js_sort cmp (x # xs) = js_insert cmp x (js_sort cmp xs)" by (simp add: js_sort_def)
  then show ?case using Cons by (simp add: distinct_js_insert set_js_sort)
qed

lemma monthlyWinRate_sorted:
  "sorted_wrt (\<lambda>a b. localeCompare (month a) (month b) \<le> 0) (monthlyWinRateOf env matches)"
  unfolding monthlyWinRateOf_def
proof (rule sorted_js_sort)
  fix a b c :: MonthlyData
  show "localeCompare (month a) (month b) \<le> 0 \<or> localeCompare (month b) (month a) \<le> 0"
    by (rule localeCompare_total)
  show "localeCompare (month a) (month b) \<le> 0 \<Longrightarrow> localeCompare (month b) (month c) \<le> 0 \<Longrightarrow>
          localeCompare (month a) (month c) \<le> 0"
    by (rule localeCompare_trans)
qed

lemma monthlyWinRate_distinct: "distinct (map month (monthlyWinRateOf env matches))"
proof -
  have "map month (map toMonthlyData (foldl (bucketStep (getMonthString env)) [] matches))
      = map fst (foldl (bucketStep (getMonthString env)) [] matches)"
    by (simp add: toMonthlyData_def comp_def case_prod_beta)
  then show ?thesis
    by (simp add: monthlyWinRateOf_def distinct_js_sort keys_buckets)
qed

text \<open>The calendar of the examples.\<close>

lemma civil_2024:
  "civil_from_days 19723 = (2024, 1, 1)" "civil_from_days 19754 = (2024, 2, 1)"
  unfolding civil_from_days_def Let_def by simp_all

lemma show_int_2024: "show_int 2024 = ''2024''" "show_int 1 = ''1''" "show_int 2 = ''2''"
  by (simp_all add: show_int_def show_nat.simps)

lemma day_of:
  assumes "86400000 * d \<le> t" and "t < 86400000 * d + 86400000"
  shows "t div 86400000 = (d::int)"
proof -
  have "t = 86400000 * d + (t - 86400000 * d)" by simp
  moreover have "0 \<le> t - 86400000 * d" using assms(1) by simp
  moreover have "t - 86400000 * d < 86400000" using assms(2) by simp
  ultimately show ?thesis by (rule int_div_pos_eq)
qed

lemma month_2024_01:
  assumes "1704067200000 \<le> t" and "t < 1704153600000"
  shows "getMonthString utcDate t = ''2024-01''"
proof -
  have "t div 86400000 = 19723" using assms by (intro day_of) simp_all
  then show ?thesis
    by (simp add: getMonthString_def utcDate_def civil_2024 show_int_2024 padStart_def)
qed

lemma month_2024_02:
  assumes "1706745600000 \<le> t" and "t < 1706832000000"
  shows "getMonthString utcDate t = ''2024-02''"
proof -
  have "t div 86400000 = 19754" using assms by (intro day_of) simp_all
  then show ?thesis
    by (simp add: getMonthString_def utcDate_def civil_2024 show_int_2024 padStart_def)
qed

lemma ev_monthly_tied:
  "monthlyWinRateOf utcDate
     [sampleMatch 1704067200000 1800 1 True 1 1 1 1, sampleMatch 1704067200001 1800 1 True 1 1 1 1,
      sampleMatch 1704067200002 1800 1 False 1 1 1 1, sampleMatch 1704067200003 1800 1 False 1 1 1 1,
      sampleMatch 1704067200004 1800 1 False 1 1 1 1,
      sampleMatch 1706745600000 1800 1 True 1 1 1 1, sampleMatch 1706745600001 1800 1 True 1 1 1 1,
      sampleMatch 1706745600002 1800 1 False 1 1 1 1, sampleMatch 1706745600003 1800 1 False 1 1 1 1,
      sampleMatch 1706745600004 1800 1 False 1 1 1 1]
   = [\<lparr> month = ''2024-01'', MonthlyData.games = 5, MonthlyData.wins = 2, MonthlyData.losses = 3,
        MonthlyData.winRate = 40 \<rparr>,
      \<lparr> month = ''2024-02'', MonthlyData.games = 5, MonthlyData.wins = 2, MonthlyData.losses = 3,
        MonthlyData.winRate = 40 \<rparr>]"
  by (simp add: monthlyWinRateOf_def bucketStep_def map_has_def map_get_def toMonthlyData_def
      js_sort_def month_2024_01 month_2024_02 sampleMatch_def Let_def)


lemma ev_monthly_zero:
  "monthlyWinRateOf utcDate
     [sampleMatch 1706745600000 1800 1 True 1 1 1 1, sampleMatch 1704067200000 1800 1 False 1 1 1 1,
      sampleMatch 1704067200001 1800 1 False 1 1 1 1, sampleMatch 1706745600001 1800 1 True 1 1 1 1,
      sampleMatch 1704067200002 1800 1 False 1 1 1 1, sampleMatch 1706745600002 1800 1 True 1 1 1 1,
      sampleMatch 1704067200003 1800 1 False 1 1 1 1, sampleMatch 1706745600003 1800 1 False 1 1 1 1,
      sampleMatch 1704067200004 1800 1 False 1 1 1 1, sampleMatch 1706745600004 1800 1 False 1 1 1 1]
   = [\<lparr> month = ''2024-01'', MonthlyData.games = 5, MonthlyData.wins = 0, MonthlyData.losses = 5,
        MonthlyData.winRate = 0 \<rparr>,
      \<lparr> month = ''2024-02'', MonthlyData.games = 5, MonthlyData.wins = 3, MonthlyData.losses = 2,
        MonthlyData.winRate = 60 \<rparr>]"
  by (simp add: monthlyWinRateOf_def bucketStep_def map_has_def map_get_def toMonthlyData_def
      js_sort_def month_2024_01 month_2024_02 sampleMatch_def Let_def)

lemma monthlyWinRate_keys:
  "set (map month (monthlyWinRateOf env matches))
     = (\<lambda>m. getMonthString env (gameCreation m)) ` set matches"
proof -
  have "map month (map toMonthlyData (foldl (bucketStep (getMonthString env)) [] matches))
      = map fst (foldl (bucketStep (getMonthString env)) [] matches)"
    by (simp add: toMonthlyData_def comp_def case_prod_beta)
  then have "set (map month (map toMonthlyData
                 (foldl (bucketStep (getMonthString env)) [] matches)))
      = (\<lambda>m. getMonthString env (gameCreation m)) ` set matches"
    by (simp only: keys_buckets set_firstSeen set_map)
  moreover have "set (map month (monthlyWinRateOf env matches))
      = set (map month (map toMonthlyData
                 (foldl (bucketStep (getMonthString env)) [] matches)))"
    unfolding monthlyWinRateOf_def set_map set_js_sort ..
  ultimately show ?thesis by simp
qed

lemma ev_monthly_spec:
  "monthlyWinRateOf utcDate
     [sampleMatch 1704067200000 1800 1 True 1 1 1 1, sampleMatch 1704067200001 1800 1 True 1 1 1 1,
      sampleMatch 1704067200002 1800 1 True 1 1 1 1, sampleMatch 1706745600000 1800 1 True 1 1 1 1,
      sampleMatch 1704067200003 1800 1 True 1 1 1 1, sampleMatch 1704067200004 1800 1 False 1 1 1 1,
      sampleMatch 1704067200005 1800 1 False 1 1 1 1, sampleMatch 1706745600001 1800 1 False 1 1 1 1,
      sampleMatch 1706745600002 1800 1 False 1 1 1 1]
   = [\<lparr> month = ''2024-01'', MonthlyData.games = 6, MonthlyData.wins = 4, MonthlyData.losses = 2,
        MonthlyData.winRate = 200 / 3 \<rparr>,
      \<lparr> month = ''2024-02'', MonthlyData.games = 3, MonthlyData.wins = 1, MonthlyData.losses = 2,
        MonthlyData.winRate = 100 / 3 \<rparr>]"
  by (simp add: monthlyWinRateOf_def bucketStep_def map_has_def map_get_def toMonthlyData_def
      js_sort_def month_2024_01 month_2024_02 sampleMatch_def Let_def)

lemma monthlyWinRate_eq:
  "monthlyWinRate (calculateTemporalTrends env matches) = monthlyWinRateOf env matches"
  by (cases matches)
     (simp_all add: calculateTemporalTrends_def monthlyWinRateOf_def js_sort_def Let_def)

text \<open>
  C5, as amended: an empty best and worst month when no month has 5 or more games;
  otherwise the best month is the first month of \<open>monthlyWinRate\<close> with 5 or more games
  whose win rate is the highest among those months, and the worst month is the last such
  month whose win rate is the lowest among them; the \<open>games\<close> of a month are the number of
  matches with that month key, and \<open>monthlyWinRate\<close> lists every month of the matches, each
  once, in ascending order of the month keys.
\<close>

theorem best_worst_month:
  "(filter (\<lambda>m. 5 \<le> MonthlyData.games m) (monthlyWinRate (calculateTemporalTrends env matches)) = []
      \<longrightarrow> bestMonth (calculateTemporalTrends env matches) = ''''
        \<and> worstMonth (calculateTemporalTrends env matches) = '''')
   \<and> (filter (\<lambda>m. 5 \<le> MonthlyData.games m) (monthlyWinRate (calculateTemporalTrends env matches))
        \<noteq> []
      \<longrightarrow> (\<exists>b. firstMax MonthlyData.winRate
                 (filter (\<lambda>m. 5 \<le> MonthlyData.games m)
                    (monthlyWinRate (calculateTemporalTrends env matches))) (Some b)
               \<and> bestMonth (calculateTemporalTrends env matches) = month b)
        \<and> (\<exists>w. lastMin MonthlyData.winRate
                 (filter (\<lambda>m. 5 \<le> MonthlyData.games m)
                    (monthlyWinRate (calculateTemporalTrends env matches))) (Some w)
               \<and> worstMonth (calculateTemporalTrends env matches) = month w))
   \<and> (\<forall>e \<in> set (monthlyWinRate (calculateTemporalTrends env matches)).
        MonthlyData.games e
          = int (length (filter (\<lambda>m. getMonthString env (gameCreation m) = month e) matches))
      \<and> MonthlyData.wins e
          = int (length (filter (\<lambda>m. win (participant m))
               (filter (\<lambda>m. getMonthString env (gameCreation m) = month e) matches)))
      \<and> MonthlyData.winRate e = of_int (MonthlyData.wins e) / of_int (MonthlyData.games e) * 100)
   \<and> sorted_wrt (\<lambda>a b. localeCompare (month a) (month b) \<le> 0)
       (monthlyWinRate (calculateTemporalTrends env matches))
   \<and> distinct (map month (monthlyWinRate (calculateTemporalTrends env matches)))
   \<and> set (map month (monthlyWinRate (calculateTemporalTrends env matches)))
       = (\<lambda>m. getMonthString env (gameCreation m)) ` set matches
   \<and> temporalTrends (aggregateMatchData env matches masteries)
       = calculateTemporalTrends env matches"
proof (intro conjI impI ballI)
  assume "filter (\<lambda>m. 5 \<le> MonthlyData.games m)
            (monthlyWinRate (calculateTemporalTrends env matches)) = []"
  then have "bestWorstMonth (monthlyWinRate (calculateTemporalTrends env matches)) = ('''', '''')"
    by (rule bestWorstMonth_none)
  then show "bestMonth (calculateTemporalTrends env matches) = ''''"
    "worstMonth (calculateTemporalTrends env matches) = ''''"
    by (simp_all add: temporal_best_worst)
next
  assume ne: "filter (\<lambda>m. 5 \<le> MonthlyData.games m)
            (monthlyWinRate (calculateTemporalTrends env matches)) \<noteq> []"
  note bw = bestWorstMonth_significant [OF ne]
  show "\<exists>b. firstMax MonthlyData.winRate
                 (filter (\<lambda>m. 5 \<le> MonthlyData.games m)
                    (monthlyWinRate (calculateTemporalTrends env matches))) (Some b)
               \<and> bestMonth (calculateTemporalTrends env matches) = month b"
    using bw by (simp add: temporal_best_worst)
  show "\<exists>w. lastMin MonthlyData.winRate
                 (filter (\<lambda>m. 5 \<le> MonthlyData.games m)
                    (monthlyWinRate (calculateTemporalTrends env matches))) (Some w)
               \<and> worstMonth (calculateTemporalTrends env matches) = month w"
    using bw by (simp add: temporal_best_worst)
next
  fix e
  assume "e \<in> set (monthlyWinRate (calculateTemporalTrends env matches))"
  then have e: "e \<in> set (monthlyWinRateOf env matches)"
    by (simp only: monthlyWinRate_eq)
  note me = monthly_entries [OF e]
  show "MonthlyData.games e
          = int (length (filter (\<lambda>m. getMonthString env (gameCreation m) = month e) matches))"
    using me by blast
  show "MonthlyData.wins e
          = int (length (filter (\<lambda>m. win (participant m))
               (filter (\<lambda>m. getMonthString env (gameCreation m) = month e) matches)))"
    using me by blast
  show "MonthlyData.winRate e = of_int (MonthlyData.wins e) / of_int (MonthlyData.games e) * 100"
    using me by blast
next
  show "sorted_wrt (\<lambda>a b. localeCompare (month a) (month b) \<le> 0)
          (monthlyWinRate (calculateTemporalTrends env matches))"
    unfolding monthlyWinRate_eq by (rule monthlyWinRate_sorted)
  show "distinct (map month (monthlyWinRate (calculateTemporalTrends env matches)))"
    unfolding monthlyWinRate_eq by (rule monthlyWinRate_distinct)
  show "set (map month (monthlyWinRate (calculateTemporalTrends env matches)))
       = (\<lambda>m. getMonthString env (gameCreation m)) ` set matches"
    unfolding monthlyWinRate_eq by (rule monthlyWinRate_keys)
  show "temporalTrends (aggregateMatchData env matches masteries)
       = calculateTemporalTrends env matches"
    by (rule temporalTrends_eq)
qed

theorem best_worst_month_witness:
  "map (\<lambda>e. (month e, MonthlyData.games e, MonthlyData.wins e))
     (monthlyWinRate (calculateTemporalTrends utcDate
     [sampleMatch 1704067200000 1800 1 True 1 1 1 1, sampleMatch 1704067200001 1800 1 True 1 1 1 1,
      sampleMatch 1704067200002 1800 1 True 1 1 1 1, sampleMatch 1706745600000 1800 1 True 1 1 1 1,
      sampleMatch 1704067200003 1800 1 True 1 1 1 1, sampleMatch 1704067200004 1800 1 False 1 1 1 1,
      sampleMatch 1704067200005 1800 1 False 1 1 1 1, sampleMatch 1706745600001 1800 1 False 1 1 1 1,
      sampleMatch 1706745600002 1800 1 False 1 1 1 1]))
   = [(''2024-01'', 6, 4), (''2024-02'', 3, 1)]
   \<and> bestMonth (calculateTemporalTrends utcDate
     [sampleMatch 1704067200000 1800 1 True 1 1 1 1, sampleMatch 1704067200001 1800 1 True 1 1 1 1,
      sampleMatch 1704067200002 1800 1 True 1 1 1 1, sampleMatch 1706745600000 1800 1 True 1 1 1 1,
      sampleMatch 1704067200003 1800 1 True 1 1 1 1, sampleMatch 1704067200004 1800 1 False 1 1 1 1,
      sampleMatch 1704067200005 1800 1 False 1 1 1 1, sampleMatch 1706745600001 1800 1 False 1 1 1 1,
      sampleMatch 1706745600002 1800 1 False 1 1 1 1]) = ''2024-01''
   \<and> worstMonth (calculateTemporalTrends utcDate
     [sampleMatch 1704067200000 1800 1 True 1 1 1 1, sampleMatch 1704067200001 1800 1 True 1 1 1 1,
      sampleMatch 1704067200002 1800 1 True 1 1 1 1, sampleMatch 1706745600000 1800 1 True 1 1 1 1,
      sampleMatch 1704067200003 1800 1 True 1 1 1 1, sampleMatch 1704067200004 1800 1 False 1 1 1 1,
      sampleMatch 1704067200005 1800 1 False 1 1 1 1, sampleMatch 1706745600001 1800 1 False 1 1 1 1,
      sampleMatch 1706745600002 1800 1 False 1 1 1 1]) = ''2024-01''
   \<and> map (\<lambda>e. (month e, MonthlyData.games e, MonthlyData.wins e))
     (monthlyWinRate (calculateTemporalTrends utcDate
     [sampleMatch 1706745600000 1800 1 True 1 1 1 1, sampleMatch 1704067200000 1800 1 False 1 1 1 1,
      sampleMatch 1704067200001 1800 1 False 1 1 1 1, sampleMatch 1706745600001 1800 1 True 1 1 1 1,
      sampleMatch 1704067200002 1800 1 False 1 1 1 1, sampleMatch 1706745600002 1800 1 True 1 1 1 1,
      sampleMatch 1704067200003 1800 1 False 1 1 1 1, sampleMatch 1706745600003 1800 1 False 1 1 1 1,
      sampleMatch 1704067200004 1800 1 False 1 1 1 1, sampleMatch 1706745600004 1800 1 False 1 1 1 1]))
   = [(''2024-01'', 5, 0), (''2024-02'', 5, 3)]
   \<and> bestMonth (calculateTemporalTrends utcDate
     [sampleMatch 1706745600000 1800 1 True 1 1 1 1, sampleMatch 1704067200000 1800 1 False 1 1 1 1,
      sampleMatch 1704067200001 1800 1 False 1 1 1 1, sampleMatch 1706745600001 1800 1 True 1 1 1 1,
      sampleMatch 1704067200002 1800 1 False 1 1 1 1, sampleMatch 1706745600002 1800 1 True 1 1 1 1,
      sampleMatch 1704067200003 1800 1 False 1 1 1 1, sampleMatch 1706745600003 1800 1 False 1 1 1 1,
      sampleMatch 1704067200004 1800 1 False 1 1 1 1, sampleMatch 1706745600004 1800 1 False 1 1 1 1])
     = ''2024-02''
   \<and> worstMonth (calculateTemporalTrends utcDate
     [sampleMatch 1706745600000 1800 1 True 1 1 1 1, sampleMatch 1704067200000 1800 1 False 1 1 1 1,
      sampleMatch 1704067200001 1800 1 False 1 1 1 1, sampleMatch 1706745600001 1800 1 True 1 1 1 1,
      sampleMatch 1704067200002 1800 1 False 1 1 1 1, sampleMatch 1706745600002 1800 1 True 1 1 1 1,
      sampleMatch 1704067200003 1800 1 False 1 1 1 1, sampleMatch 1706745600003 1800 1 False 1 1 1 1,
      sampleMatch 1704067200004 1800 1 False 1 1 1 1, sampleMatch 1706745600004 1800 1 False 1 1 1 1])
     = ''2024-01''"
proof -
  have ev1: "map (\<lambda>e. (month e, MonthlyData.games e, MonthlyData.wins e))
     (monthlyWinRate (calculateTemporalTrends utcDate
     [sampleMatch 1704067200000 1800 1 True 1 1 1 1, sampleMatch 1704067200001 1800 1 True 1 1 1 1,
      sampleMatch 1704067200002 1800 1 True 1 1 1 1, sampleMatch 1706745600000 1800 1 True 1 1 1 1,
      sampleMatch 1704067200003 1800 1 True 1 1 1 1, sampleMatch 1704067200004 1800 1 False 1 1 1 1,
      sampleMatch 1704067200005 1800 1 False 1 1 1 1, sampleMatch 1706745600001 1800 1 False 1 1 1 1,
      sampleMatch 1706745600002 1800 1 False 1 1 1 1]))
   = [(''2024-01'', 6, 4), (''2024-02'', 3, 1)]
   \<and> bestMonth (calculateTemporalTrends utcDate
     [sampleMatch 1704067200000 1800 1 True 1 1 1 1, sampleMatch 1704067200001 1800 1 True 1 1 1 1,
      sampleMatch 1704067200002 1800 1 True 1 1 1 1, sampleMatch 1706745600000 1800 1 True 1 1 1 1,
      sampleMatch 1704067200003 1800 1 True 1 1 1 1, sampleMatch 1704067200004 1800 1 False 1 1 1 1,
      sampleMatch 1704067200005 1800 1 False 1 1 1 1, sampleMatch 1706745600001 1800 1 False 1 1 1 1,
      sampleMatch 1706745600002 1800 1 False 1 1 1 1]) = ''2024-01''
   \<and> worstMonth (calculateTemporalTrends utcDate
     [sampleMatch 1704067200000 1800 1 True 1 1 1 1, sampleMatch 1704067200001 1800 1 True 1 1 1 1,
      sampleMatch 1704067200002 1800 1 True 1 1 1 1, sampleMatch 1706745600000 1800 1 True 1 1 1 1,
      sampleMatch 1704067200003 1800 1 True 1 1 1 1, sampleMatch 1704067200004 1800 1 False 1 1 1 1,
      sampleMatch 1704067200005 1800 1 False 1 1 1 1, sampleMatch 1706745600001 1800 1 False 1 1 1 1,
      sampleMatch 1706745600002 1800 1 False 1 1 1 1]) = ''2024-01''"
    by (simp add: temporal_best_worst monthlyWinRate_eq ev_monthly_spec bestWorstMonth_def
        js_sort_def)
  have ev2: "map (\<lambda>e. (month e, MonthlyData.games e, MonthlyData.wins e))
     (monthlyWinRate (calculateTemporalTrends utcDate
     [sampleMatch 1706745600000 1800 1 True 1 1 1 1, sampleMatch 1704067200000 1800 1 False 1 1 1 1,
      sampleMatch 1704067200001 1800 1 False 1 1 1 1, sampleMatch 1706745600001 1800 1 True 1 1 1 1,
      sampleMatch 1704067200002 1800 1 False 1 1 1 1, sampleMatch 1706745600002 1800 1 True 1 1 1 1,
      sampleMatch 1704067200003 1800 1 False 1 1 1 1, sampleMatch 1706745600003 1800 1 False 1 1 1 1,
      sampleMatch 1704067200004 1800 1 False 1 1 1 1, sampleMatch 1706745600004 1800 1 False 1 1 1 1]))
   = [(''2024-01'', 5, 0), (''2024-02'', 5, 3)]
   \<and> bestMonth (calculateTemporalTrends utcDate
     [sampleMatch 1706745600000 1800 1 True 1 1 1 1, sampleMatch 1704067200000 1800 1 False 1 1 1 1,
      sampleMatch 1704067200001 1800 1 False 1 1 1 1, sampleMatch 1706745600001 1800 1 True 1 1 1 1,
      sampleMatch 1704067200002 1800 1 False 1 1 1 1, sampleMatch 1706745600002 1800 1 True 1 1 1 1,
      sampleMatch 1704067200003 1800 1 False 1 1 1 1, sampleMatch 1706745600003 1800 1 False 1 1 1 1,
      sampleMatch 1704067200004 1800 1 False 1 1 1 1, sampleMatch 1706745600004 1800 1 False 1 1 1 1])
     = ''2024-02''
   \<and> worstMonth (calculateTemporalTrends utcDate
     [sampleMatch 1706745600000 1800 1 True 1 1 1 1, sampleMatch 1704067200000 1800 1 False 1 1 1 1,
      sampleMatch 1704067200001 1800 1 False 1 1 1 1, sampleMatch 1706745600001 1800 1 True 1 1 1 1,
      sampleMatch 1704067200002 1800 1 False 1 1 1 1, sampleMatch 1706745600002 1800 1 True 1 1 1 1,
      sampleMatch 1704067200003 1800 1 False 1 1 1 1, sampleMatch 1706745600003 1800 1 False 1 1 1 1,
      sampleMatch 1704067200004 1800 1 False 1 1 1 1, sampleMatch 1706745600004 1800 1 False 1 1 1 1])
     = ''2024-01''"
    by (simp add: temporal_best_worst monthlyWinRate_eq ev_monthly_zero bestWorstMonth_def
        js_sort_def)
  show ?thesis
    using best_worst_month [of utcDate
     "[sampleMatch 1706745600000 1800 1 True 1 1 1 1, sampleMatch 1704067200000 1800 1 False 1 1 1 1,
      sampleMatch 1704067200001 1800 1 False 1 1 1 1, sampleMatch 1706745600001 1800 1 True 1 1 1 1,
      sampleMatch 1704067200002 1800 1 False 1 1 1 1, sampleMatch 1706745600002 1800 1 True 1 1 1 1,
      sampleMatch 1704067200003 1800 1 False 1 1 1 1, sampleMatch 1706745600003 1800 1 False 1 1 1 1,
      sampleMatch 1704067200004 1800 1 False 1 1 1 1, sampleMatch 1706745600004 1800 1 False 1 1 1 1]"
     "[]"] ev1 ev2
    by - (rule conjI [OF ev1 [THEN conjunct1]], rule conjI [OF ev1 [THEN conjunct2, THEN conjunct1]],
          rule conjI [OF ev1 [THEN conjunct2, THEN conjunct2]], rule ev2)
qed

theorem worst_month_tie_counterexample:
  "worstMonth (calculateTemporalTrends utcDate
     [sampleMatch 1704067200000 1800 1 True 1 1 1 1, sampleMatch 1704067200001 1800 1 True 1 1 1 1,
      sampleMatch 1704067200002 1800 1 False 1 1 1 1, sampleMatch 1704067200003 1800 1 False 1 1 1 1,
      sampleMatch 1704067200004 1800 1 False 1 1 1 1,
      sampleMatch 1706745600000 1800 1 True 1 1 1 1, sampleMatch 1706745600001 1800 1 True 1 1 1 1,
      sampleMatch 1706745600002 1800 1 False 1 1 1 1, sampleMatch 1706745600003 1800 1 False 1 1 1 1,
      sampleMatch 1706745600004 1800 1 False 1 1 1 1]) = ''2024-02''
   \<and> claimedWorstMonth (monthlyWinRate (calculateTemporalTrends utcDate
     [sampleMatch 1704067200000 1800 1 True 1 1 1 1, sampleMatch 1704067200001 1800 1 True 1 1 1 1,
      sampleMatch 1704067200002 1800 1 False 1 1 1 1, sampleMatch 1704067200003 1800 1 False 1 1 1 1,
      sampleMatch 1704067200004 1800 1 False 1 1 1 1,
      sampleMatch 1706745600000 1800 1 True 1 1 1 1, sampleMatch 1706745600001 1800 1 True 1 1 1 1,
      sampleMatch 1706745600002 1800 1 False 1 1 1 1, sampleMatch 1706745600003 1800 1 False 1 1 1 1,
      sampleMatch 1706745600004 1800 1 False 1 1 1 1])) = ''2024-01''"
  by (simp add: temporal_best_worst monthlyWinRate_eq ev_monthly_tied bestWorstMonth_def
      claimedWorstMonth_def js_sort_def)

end
